theory Spec2Isabelle
  imports Complex_Main
begin

section \<open>Common data: errors and two-dimensional arrays\<close>

text \<open>
  Exceptions of the Python sources are values of \<open>error\<close>; a function that may raise
  returns \<open>error + 'a\<close> with \<open>Inl\<close> for the exception.
\<close>

datatype error = RuntimeError | NotImplementedError | IndexError | ValueError | KeyError
  | ZeroDivisionError

text \<open>
  A two-dimensional numpy array is its shape together with its cells. Cells outside the
  shape are never read or written by the operations below: every write goes through
  \<open>np_index\<close>, which raises \<open>IndexError\<close> as numpy does. The element types
  \<open>float32\<close> and \<open>complex64\<close> are taken as \<open>real\<close> and \<open>complex\<close>: rounding is
  not modelled.
\<close>

record 'a ndarray =
  shape :: "nat \<times> nat"
  cells :: "nat \<times> nat \<Rightarrow> 'a"

definition np_index :: "nat \<Rightarrow> int \<Rightarrow> error + nat" where
  \<comment> \<open>numpy index into an axis of extent \<open>n\<close>: negative indices count from the end\<close>
  "np_index n i =
     (if 0 \<le> i \<and> i < int n then Inr (nat i)
      else if - int n \<le> i \<and> i < 0 then Inr (nat (i + int n))
      else Inl IndexError)"

definition np_mod :: "int \<Rightarrow> nat \<Rightarrow> int" where
  \<comment> \<open>numpy integer \<open>%\<close>: the sign of the divisor; division by zero gives 0 (with a warning)\<close>
  "np_mod a n = (if n = 0 then 0 else a mod int n)"

section \<open>\<open>core/integrals/infinite.py\<close>: scatter-add of point deposits\<close>

type_synonym deposit = "int \<times> int \<times> real"

text \<open>
  \<open>xp.add.at(array, (i, j), v)\<close>: unbuffered addition, one deposit after the other. On an
  accelerator the source calls \<open>cupyx.scatter_add\<close>, which is the same operation.
\<close>

fun add_at :: "real ndarray \<Rightarrow> deposit list \<Rightarrow> error + real ndarray" where
  "add_at a [] = Inr a"
| "add_at a ((i, j, v) # ds) =
     (case np_index (fst (shape a)) i of
        Inl e \<Rightarrow> Inl e
      | Inr r \<Rightarrow>
          (case np_index (snd (shape a)) j of
             Inl e \<Rightarrow> Inl e
           | Inr c \<Rightarrow> add_at (a\<lparr>cells := (cells a)((r, c) := cells a (r, c) + v)\<rparr>) ds))"

text \<open>
  The 32-bit integers of \<open>rounded = xp.floor(positions).astype(xp.int32)\<close>. An \<open>int32\<close>
  value is an \<open>int\<close> within \<open>-2^31, ..., 2^31 - 1\<close>. \<open>xp.floor\<close> returns a float.
  \<open>astype\<close> truncates towards zero; a float outside the range of \<open>int32\<close> has no defined
  image under the C cast, and numpy on x86-64 yields \<open>-2^31\<close> for it. Arithmetic on
  \<open>int32\<close> arrays wraps around silently: \<open>int32\<close> is the value of an integer modulo \<open>2^32\<close>.
\<close>

definition np_floor :: "real \<Rightarrow> real" where
  "np_floor x = of_int \<lfloor>x\<rfloor>"

definition astype_int32 :: "real \<Rightarrow> int" where
  "astype_int32 x =
     (let t = (if 0 \<le> x then \<lfloor>x\<rfloor> else \<lceil>x\<rceil>)
      in if - (2 ^ 31) \<le> t \<and> t < 2 ^ 31 then t else - (2 ^ 31))"

definition int32 :: "int \<Rightarrow> int" where
  "int32 a = (a + 2 ^ 31) mod 2 ^ 32 - 2 ^ 31"

text \<open>The local arrays of \<open>superpose_deltas\<close>, each a list over the points.\<close>

definition sd_rows :: "(real \<times> real) list \<Rightarrow> int list" where
  "sd_rows positions = map (\<lambda>p. astype_int32 (np_floor (fst p))) positions"

definition sd_cols :: "(real \<times> real) list \<Rightarrow> int list" where
  "sd_cols positions = map (\<lambda>p. astype_int32 (np_floor (snd p))) positions"

definition sd_x :: "(real \<times> real) list \<Rightarrow> real list" where
  "sd_x positions = map2 (\<lambda>p r. fst p - of_int r) positions (sd_rows positions)"

definition sd_y :: "(real \<times> real) list \<Rightarrow> real list" where
  "sd_y positions = map2 (\<lambda>p c. snd p - of_int c) positions (sd_cols positions)"

definition sd_xy :: "(real \<times> real) list \<Rightarrow> real list" where
  "sd_xy positions = map2 (*) (sd_x positions) (sd_y positions)"

text \<open>
  \<open>i = [rows % shape[0], (rows + 1) % shape[0]] * 2\<close>,
  \<open>j = [cols % shape[1]] * 2 + [(cols + 1) % shape[1]] * 2\<close>,
  \<open>v = [1 + xy - y - x, x - xy, y - xy, xy]\<close>: four rows, one column for each point.
  \<open>rows + 1\<close> and \<open>cols + 1\<close> are computed in \<open>int32\<close>; the extent is a Python \<open>int\<close>,
  and \<open>%\<close> gives the residue in \<open>0, ..., extent - 1\<close>.
\<close>

definition sd_i :: "nat \<times> nat \<Rightarrow> (real \<times> real) list \<Rightarrow> int list list" where
  "sd_i shp positions =
     (let rows = sd_rows positions
      in [map (\<lambda>r. np_mod r (fst shp)) rows, map (\<lambda>r. np_mod (int32 (r + 1)) (fst shp)) rows]
       @ [map (\<lambda>r. np_mod r (fst shp)) rows, map (\<lambda>r. np_mod (int32 (r + 1)) (fst shp)) rows])"

definition sd_j :: "nat \<times> nat \<Rightarrow> (real \<times> real) list \<Rightarrow> int list list" where
  "sd_j shp positions =
     (let cols = sd_cols positions
      in [map (\<lambda>c. np_mod c (snd shp)) cols, map (\<lambda>c. np_mod c (snd shp)) cols]
       @ [map (\<lambda>c. np_mod (int32 (c + 1)) (snd shp)) cols,
          map (\<lambda>c. np_mod (int32 (c + 1)) (snd shp)) cols])"

definition sd_v :: "(real \<times> real) list \<Rightarrow> real list list" where
  "sd_v positions =
     (let x = sd_x positions; y = sd_y positions; xy = sd_xy positions
      in [map2 (\<lambda>xy (y, x). 1 + xy - y - x) xy (zip y x),
          map2 (\<lambda>x xy. x - xy) x xy,
          map2 (\<lambda>y xy. y - xy) y xy,
          xy])"

text \<open>
  \<open>v * weights[None]\<close>: numpy broadcasting of a \<open>(4, N)\<close> array with a \<open>(1, M)\<close>
  array; it needs \<open>M = N\<close> or \<open>M = 1\<close> and raises \<open>ValueError\<close> otherwise.
\<close>

definition sd_weighted :: "real list list \<Rightarrow> nat \<Rightarrow> real list option \<Rightarrow> error + real list list" where
  "sd_weighted v n weights =
     (case weights of
        None \<Rightarrow> Inr v
      | Some ws \<Rightarrow>
          if length ws = n then Inr (map (\<lambda>row. map2 (*) row ws) v)
          else if length ws = 1 then Inr (map (\<lambda>row. map (\<lambda>a. a * hd ws) row) v)
          else Inl ValueError)"

definition sd_deposits :: "int list list \<Rightarrow> int list list \<Rightarrow> real list list \<Rightarrow> deposit list" where
  \<comment> \<open>the elements of \<open>(i, j)\<close> and \<open>v\<close> in the order \<open>add.at\<close> visits them (row-major)\<close>
  "sd_deposits i j v = zip (concat i) (zip (concat j) (concat v))"

definition superpose_deltas ::
  "(real \<times> real) list \<Rightarrow> real ndarray \<Rightarrow> 'si option \<Rightarrow> real list option \<Rightarrow> error + real ndarray"
where
  "superpose_deltas positions array slice_index weights =
     (let shp = shape array
      in if slice_index = None then
           (let i = sd_i shp positions;
                j = sd_j shp positions;
                v = sd_v positions
            in case sd_weighted v (length positions) weights of
                 Inl e \<Rightarrow> Inl e
               | Inr v' \<Rightarrow> add_at array (sd_deposits i j v'))
         else Inl NotImplementedError)"



text \<open>
  Names for stating the properties of the scatter-add. For one point: the row and the
  column that the code computes for it (an element of \<open>rows\<close> and of \<open>cols\<close>), and the
  offsets from them (an element of \<open>x\<close> and of \<open>y\<close>); the four cells the code addresses
  for it.
\<close>

definition point_row :: "real \<times> real \<Rightarrow> int" where
  "point_row p = astype_int32 (np_floor (fst p))"

definition point_col :: "real \<times> real \<Rightarrow> int" where
  "point_col p = astype_int32 (np_floor (snd p))"

definition off_row :: "real \<times> real \<Rightarrow> real" where
  "off_row p = fst p - of_int (point_row p)"

definition off_col :: "real \<times> real \<Rightarrow> real" where
  "off_col p = snd p - of_int (point_col p)"


definition point_deposit :: "nat \<times> nat \<Rightarrow> real \<times> real \<Rightarrow> nat \<times> nat \<Rightarrow> real" where
  \<comment> \<open>what the code adds to a cell for one point: the weights of those of its four cells
      that coincide with the cell\<close>
  "point_deposit shp p cell =
     (let r = point_row p; c = point_col p; x = off_row p; y = off_col p
      in (if cell = (nat (np_mod r (fst shp)), nat (np_mod c (snd shp)))
          then 1 + x * y - y - x else 0)
       + (if cell = (nat (np_mod (int32 (r + 1)) (fst shp)), nat (np_mod c (snd shp)))
          then x - x * y else 0)
       + (if cell = (nat (np_mod r (fst shp)), nat (np_mod (int32 (c + 1)) (snd shp)))
          then y - x * y else 0)
       + (if cell = (nat (np_mod (int32 (r + 1)) (fst shp)), nat (np_mod (int32 (c + 1)) (snd shp)))
          then x * y else 0))"

text \<open>
  The mathematical counterparts: a point whose floor and its successor are \<open>int32\<close>
  values in both coordinates; the fractional parts of a point; the four grid cells that
  enclose it, wrapped at the grid boundary; and the bilinear weight that a point gives to
  a cell, the sum over those of its four enclosing cells that coincide with the cell.
\<close>

definition within_int32 :: "real \<times> real \<Rightarrow> bool" where
  "within_int32 p =
     (- (2 ^ 31) \<le> \<lfloor>fst p\<rfloor> \<and> \<lfloor>fst p\<rfloor> + 1 < 2 ^ 31 \<and>
      - (2 ^ 31) \<le> \<lfloor>snd p\<rfloor> \<and> \<lfloor>snd p\<rfloor> + 1 < 2 ^ 31)"

definition frac_row :: "real \<times> real \<Rightarrow> real" where
  "frac_row p = fst p - of_int \<lfloor>fst p\<rfloor>"

definition frac_col :: "real \<times> real \<Rightarrow> real" where
  "frac_col p = snd p - of_int \<lfloor>snd p\<rfloor>"


definition bilinear_deposit :: "nat \<times> nat \<Rightarrow> real \<times> real \<Rightarrow> nat \<times> nat \<Rightarrow> real" where
  "bilinear_deposit shp p cell =
     (let r = \<lfloor>fst p\<rfloor>; c = \<lfloor>snd p\<rfloor>; x = frac_row p; y = frac_col p
      in (if cell = (nat (np_mod r (fst shp)), nat (np_mod c (snd shp)))
          then 1 + x * y - y - x else 0)
       + (if cell = (nat (np_mod (r + 1) (fst shp)), nat (np_mod c (snd shp)))
          then x - x * y else 0)
       + (if cell = (nat (np_mod r (fst shp)), nat (np_mod (c + 1) (snd shp)))
          then y - x * y else 0)
       + (if cell = (nat (np_mod (r + 1) (fst shp)), nat (np_mod (c + 1) (snd shp)))
          then x * y else 0))"




text \<open>\<open>xp.zeros(shape, dtype=xp.float32)\<close>\<close>

definition zeros :: "nat \<times> nat \<Rightarrow> real ndarray" where
  "zeros shp = \<lparr>shape = shp, cells = (\<lambda>_. 0)\<rparr>"

section \<open>\<open>slicing.py\<close>: slice thicknesses and sliced atoms\<close>

text \<open>
  Python floats and numpy \<open>float64\<close> are taken as \<open>real\<close>. \<open>np.isclose(a, b)\<close> with its
  default tolerances is \<open>|a - b| \<le> atol + rtol * |b|\<close>, \<open>rtol = 1e-05\<close>, \<open>atol = 1e-08\<close>.
\<close>

definition isclose :: "real \<Rightarrow> real \<Rightarrow> bool" where
  "isclose a b \<longleftrightarrow> \<bar>a - b\<bar> \<le> 1 / 10 ^ 8 + (1 / 10 ^ 5) * \<bar>b\<bar>"

text \<open>
  The argument \<open>slice_thickness\<close>: a scalar step or explicit per-slice values; the
  constructors of the sliced atoms also accept (and refuse) a string.
\<close>

datatype thickness_arg = Scalar real | Values "real list"

datatype thickness_or_str = Thickness thickness_arg | Str string

text \<open>
  \<open>validate_slice_thickness\<close>. A scalar step with a thickness gives
  \<open>n = ceil(thickness / slice_thickness)\<close> slices of \<open>thickness / n\<close>; Python's tuple
  repetition by a count \<open>\<le> 0\<close> is the empty tuple (so the quotient by \<open>n = 0\<close> is never
  looked at). A zero step raises: \<open>ZeroDivisionError\<close> for Python floats (with numpy floats
  the quotient is infinite or nan and \<open>int\<close> of it raises).
\<close>

definition validate_slice_thickness ::
  "thickness_arg \<Rightarrow> real option \<Rightarrow> int option \<Rightarrow> error + real list"
where
  "validate_slice_thickness slice_thickness thickness num_slices =
     (case
        (case slice_thickness of
           Scalar s \<Rightarrow>
             (case thickness of
                Some t \<Rightarrow>
                  if s = 0 then Inl ZeroDivisionError
                  else (let n = \<lceil>t / s\<rceil> in Inr (replicate (nat n) (t / of_int n)))
              | None \<Rightarrow>
                  (case num_slices of
                     Some k \<Rightarrow> Inr (replicate (nat k) s)
                   | None \<Rightarrow> Inl RuntimeError))
         | Values ts \<Rightarrow> Inr ts)
      of
        Inl e \<Rightarrow> Inl e
      | Inr ts \<Rightarrow>
          if (case thickness of Some t \<Rightarrow> \<not> isclose (sum_list ts) t | None \<Rightarrow> False)
          then Inl RuntimeError
          else if (case num_slices of Some k \<Rightarrow> int (length ts) \<noteq> k | None \<Rightarrow> False)
          then Inl RuntimeError
          else Inr ts)"

text \<open>\<open>np.cumsum\<close>, and Python's list indexing with its negative indices.\<close>

fun cumsum_from :: "real \<Rightarrow> real list \<Rightarrow> real list" where
  "cumsum_from acc [] = []"
| "cumsum_from acc (x # xs) = (acc + x) # cumsum_from (acc + x) xs"

definition cumsum :: "real list \<Rightarrow> real list" where
  "cumsum xs = cumsum_from 0 xs"

definition py_getitem :: "'a list \<Rightarrow> int \<Rightarrow> error + 'a" where
  "py_getitem xs i =
     (let n = int (length xs); j = (if i < 0 then n + i else i)
      in if 0 \<le> j \<and> j < n then Inr (xs ! nat j) else Inl IndexError)"

definition slice_limits_of :: "real list \<Rightarrow> (real \<times> real) list" where
  \<comment> \<open>\<open>_slice_limits\<close>\<close>
  "slice_limits_of slice_thickness =
     (let cumulative_thickness = cumsum (0 # slice_thickness)
      in map (\<lambda>i. (cumulative_thickness ! i, cumulative_thickness ! (i + 1)))
           [0..<length cumulative_thickness - 1])"

text \<open>\<open>unpack_item\<close>: an integer, a slice \<open>start:stop\<close>, or anything else.\<close>

datatype slice_item = IntItem int | SliceItem "int option" "int option" | OtherItem

definition unpack_item :: "slice_item \<Rightarrow> int \<Rightarrow> error + (int \<times> int)" where
  "unpack_item item num_items =
     (case
        (case item of
           IntItem i \<Rightarrow> Inr (i, i + 1)
         | SliceItem start stop \<Rightarrow>
             Inr (case start of None \<Rightarrow> 0 | Some s \<Rightarrow> s,
                  case stop of None \<Rightarrow> num_items | Some s \<Rightarrow> s)
         | OtherItem \<Rightarrow> Inl RuntimeError)
      of
        Inl e \<Rightarrow> Inl e
      | Inr (first_index, last_index0) \<Rightarrow>
          (let last_index = min last_index0 num_items
           in if first_index \<ge> last_index then Inl IndexError
              else Inr (first_index, last_index)))"

text \<open>
  An \<open>ase.Atoms\<close> object as far as the slicing reads it: the positions, the atomic
  numbers (one for each position) and the \<open>3 \<times> 3\<close> cell, given by its rows.
\<close>

type_synonym vec3 = "real \<times> real \<times> real"

record atoms =
  at_positions :: "vec3 list"
  at_numbers :: "int list"
  at_cell :: "vec3 \<times> vec3 \<times> vec3"

definition pos_z :: "vec3 \<Rightarrow> real" where
  "pos_z p = snd (snd p)"

definition cell_diag :: "vec3 \<times> vec3 \<times> vec3 \<Rightarrow> vec3" where
  \<comment> \<open>\<open>np.diag(atoms.cell)\<close>\<close>
  "cell_diag c = (fst (fst c), fst (snd (fst (snd c))), snd (snd (snd (snd c))))"

definition cell_zz :: "vec3 \<times> vec3 \<times> vec3 \<Rightarrow> real" where
  \<comment> \<open>\<open>atoms.cell[2, 2]\<close>\<close>
  "cell_zz c = snd (snd (snd (snd c)))"

definition cell_of_lengths :: "vec3 \<Rightarrow> vec3 \<times> vec3 \<times> vec3" where
  \<comment> \<open>assigning three lengths to \<open>atoms.cell\<close> gives the orthorhombic cell with that diagonal\<close>
  "cell_of_lengths d = ((fst d, 0, 0), (0, fst (snd d), 0), (0, 0, snd (snd d)))"

definition is_cell_orthogonal :: "atoms \<Rightarrow> bool" where
  \<comment> \<open>Modelled from the spec: \<open>is_cell_orthogonal\<close> (\<open>abtem.atoms\<close>) is not in the sources; the
     spec's "orthogonal only" cell is taken as one whose off-diagonal entries are zero.\<close>
  "is_cell_orthogonal a = (at_cell a = cell_of_lengths (cell_diag (at_cell a)))"

definition select_atoms :: "atoms \<Rightarrow> bool list \<Rightarrow> atoms" where
  \<comment> \<open>\<open>atoms[mask]\<close> with a boolean mask: a new object with the selected atoms\<close>
  "select_atoms a sel =
     a\<lparr>at_positions := map fst (filter snd (zip (at_positions a) sel)),
       at_numbers := map fst (filter snd (zip (at_numbers a) sel))\<rparr>"

text \<open>\<open>AbstractSlicedAtoms.__init__\<close>: the checks, and the validated thicknesses.\<close>

definition abstract_sliced_atoms_init :: "atoms \<Rightarrow> thickness_or_str \<Rightarrow> error + real list" where
  "abstract_sliced_atoms_init a slice_thickness =
     (if \<not> is_cell_orthogonal a then Inl RuntimeError
      else case slice_thickness of
             Str _ \<Rightarrow> Inl NotImplementedError
           | Thickness st \<Rightarrow> validate_slice_thickness st (Some (cell_zz (at_cell a))) None)"

subsection \<open>The windowed variant \<open>SlicedAtoms\<close>\<close>

record sliced_atoms =
  sa_atoms :: atoms
  sa_slice_thickness :: "real list"
  sa_xy_padding :: real
  sa_z_padding :: real

definition sliced_atoms_init ::
  "atoms \<Rightarrow> thickness_or_str \<Rightarrow> real \<Rightarrow> real \<Rightarrow> error + sliced_atoms"
where
  "sliced_atoms_init a slice_thickness xy_padding z_padding =
     (case abstract_sliced_atoms_init a slice_thickness of
        Inl e \<Rightarrow> Inl e
      | Inr ts \<Rightarrow> Inr \<lparr>sa_atoms = a, sa_slice_thickness = ts,
                       sa_xy_padding = xy_padding, sa_z_padding = z_padding\<rparr>)"

definition sa_get_atoms_in_slices ::
  "sliced_atoms \<Rightarrow> int \<Rightarrow> int option \<Rightarrow> int option \<Rightarrow> error + atoms"
where
  \<comment> \<open>\<open>SlicedAtoms.get_atoms_in_slices\<close>\<close>
  "sa_get_atoms_in_slices self first_slice last_slice0 atomic_number =
     (let last_slice = (case last_slice0 of None \<Rightarrow> first_slice | Some l \<Rightarrow> l);
          slice_limits = slice_limits_of (sa_slice_thickness self)
      in case py_getitem slice_limits first_slice of
           Inl e \<Rightarrow> Inl e
         | Inr la \<Rightarrow>
             (case py_getitem slice_limits last_slice of
                Inl e \<Rightarrow> Inl e
              | Inr lb \<Rightarrow>
                  (let a = fst la; b = fst lb;
                       in_slice0 = map (\<lambda>p. pos_z p \<ge> a - sa_z_padding self
                                            \<and> pos_z p < b + sa_z_padding self)
                                     (at_positions (sa_atoms self));
                       in_slice = (case atomic_number of
                                     None \<Rightarrow> in_slice0
                                   | Some z \<Rightarrow> map2 (\<lambda>n m. n = z \<and> m) (at_numbers (sa_atoms self)) in_slice0);
                       selected = select_atoms (sa_atoms self) in_slice
                   in Inr (selected\<lparr>at_cell :=
                         cell_of_lengths (fst (cell_diag (at_cell selected)),
                                          fst (snd (cell_diag (at_cell selected))), b - a)\<rparr>))))"

definition sa_getitem :: "sliced_atoms \<Rightarrow> slice_item \<Rightarrow> error + atoms" where
  \<comment> \<open>\<open>AbstractSlicedAtoms.__getitem__\<close> on the windowed variant\<close>
  "sa_getitem self item =
     (case unpack_item item (int (length (sa_slice_thickness self))) of
        Inl e \<Rightarrow> Inl e
      | Inr (first_slice, last_slice) \<Rightarrow> sa_get_atoms_in_slices self first_slice (Some last_slice) None)"

subsection \<open>The slice-indexed variant \<open>SliceIndexedAtoms\<close>\<close>

text \<open>
  \<open>np.digitize(x, bins)\<close> (\<open>right=False\<close>): for increasing bins the number of bins
  \<open>\<le> x\<close>, for decreasing bins the number of bins \<open>> x\<close>; bins that are neither raise
  \<open>ValueError\<close>. numpy tests for increasing bins first.
\<close>

definition digitize1 :: "real list \<Rightarrow> real \<Rightarrow> nat" where
  "digitize1 bins x =
     (if sorted bins then length (filter (\<lambda>b. b \<le> x) bins)
      else length (filter (\<lambda>b. b > x) bins))"

definition digitize :: "real list \<Rightarrow> real list \<Rightarrow> error + nat list" where
  "digitize xs bins =
     (if sorted bins \<or> sorted (rev bins) then Inr (map (digitize1 bins) xs)
      else Inl ValueError)"

definition label_to_index :: "nat list \<Rightarrow> int \<Rightarrow> nat list list" where
  \<comment> \<open>Modelled from the spec: \<open>label_to_index\<close> (\<open>abtem.core.utils\<close>) is not in the sources.
     The spec assigns each atom "once to a depth bin by [its] position": for each label
     \<open>0, ..., max_label\<close> the list of the indices that carry this label.\<close>
  "label_to_index labels max_label =
     map (\<lambda>l. filter (\<lambda>i. labels ! i = l) [0..<length labels]) [0..<nat (max_label + 1)]"

record slice_indexed_atoms =
  sia_atoms :: atoms
  sia_slice_thickness :: "real list"
  sia_slice_index :: "nat list list"

definition slice_indexed_atoms_init :: "atoms \<Rightarrow> thickness_or_str \<Rightarrow> error + slice_indexed_atoms" where
  "slice_indexed_atoms_init a slice_thickness =
     (case abstract_sliced_atoms_init a slice_thickness of
        Inl e \<Rightarrow> Inl e
      | Inr ts \<Rightarrow>
          (case digitize (map pos_z (at_positions a)) (cumsum ts) of
             Inl e \<Rightarrow> Inl e
           | Inr labels \<Rightarrow>
               Inr \<lparr>sia_atoms = a, sia_slice_thickness = ts,
                    sia_slice_index = label_to_index labels (int (length ts) - 1)\<rparr>))"

section \<open>\<open>core/array.py\<close>: arrays with ensemble axes and base axes\<close>

text \<open>
  Python's \<open>xs[-k:]\<close> and \<open>xs[:-k]\<close> for \<open>k \<ge> 0\<close>. For \<open>k = 0\<close> the index \<open>-0\<close> is \<open>0\<close>:
  the first is the whole sequence and the second is empty.
\<close>

definition py_last :: "nat \<Rightarrow> 'a list \<Rightarrow> 'a list" where
  "py_last k xs = (if k = 0 then xs else drop (length xs - k) xs)"

definition py_but_last :: "nat \<Rightarrow> 'a list \<Rightarrow> 'a list" where
  "py_but_last k xs = (if k = 0 then [] else take (length xs - k) xs)"

text \<open>
  The indices a Python slice \<open>start:stop:step\<close> selects from a sequence of length \<open>n\<close>
  (\<open>slice.indices\<close>); a zero step raises \<open>ValueError\<close>.
\<close>

definition slice_indices :: "nat \<Rightarrow> int option \<Rightarrow> int option \<Rightarrow> int option \<Rightarrow> error + nat list" where
  "slice_indices n start stop step =
     (let st = (case step of None \<Rightarrow> 1 | Some s \<Rightarrow> s)
      in if st = 0 then Inl ValueError
         else
           (let len = int n;
                lower = (if st < 0 then - 1 else 0);
                upper = (if st < 0 then len - 1 else len);
                clamp = (\<lambda>v. if v < 0 then max (v + len) lower else min v upper);
                s0 = (case start of None \<Rightarrow> (if st < 0 then upper else lower) | Some v \<Rightarrow> clamp v);
                e0 = (case stop of None \<Rightarrow> (if st < 0 then lower else upper) | Some v \<Rightarrow> clamp v);
                count = (if st > 0 then (if s0 < e0 then (e0 - s0 - 1) div st + 1 else 0)
                         else (if e0 < s0 then (s0 - e0 - 1) div (- st) + 1 else 0))
            in Inr (map (\<lambda>k. nat (s0 + int k * st)) [0..<nat count])))"

text \<open>
  An item of an index: an integer, a slice, \<open>...\<close> or \<open>None\<close>. The argument \<open>items\<close> is
  one item, a tuple of items, or something that is neither (a list, say).
\<close>

datatype item = IntIdx int | SliceIdx "int option" "int option" "int option" | EllipsisIdx | NoneIdx

datatype items_arg = One item | Tuple "item list" | NotATuple

definition is_number :: "item \<Rightarrow> bool" where
  "is_number it = (case it of IntIdx _ \<Rightarrow> True | _ \<Rightarrow> False)"

text \<open>
  Modelled from the spec: the axis metadata classes (\<open>abtem.core.axes\<close>) are not in the
  sources. An axis descriptor carries the flag \<open>_squeeze\<close> (its squeeze eligibility) and,
  for an ordinal axis, its values; indexing an ordinal axis by a slice "sub-selects its
  labels".
\<close>

record axis_metadata =
  am_values :: "string list option"
  am_squeeze :: bool

definition ordinal_getitem :: "axis_metadata \<Rightarrow> item \<Rightarrow> error + axis_metadata" where
  "ordinal_getitem md it =
     (case am_values md of
        None \<Rightarrow> Inr md
      | Some vals \<Rightarrow>
          (case it of
             SliceIdx a b c \<Rightarrow>
               (case slice_indices (length vals) a b c of
                  Inl e \<Rightarrow> Inl e
                | Inr ks \<Rightarrow> Inr (md\<lparr>am_values := Some (map (\<lambda>k. vals ! k) ks)\<rparr>))
           | _ \<Rightarrow> Inr md))"

text \<open>
  A \<open>HasArray\<close> object as far as its axes go: the shape of its array, the number
  \<open>_base_dims\<close> of base axes and the metadata of the ensemble axes. The values in the
  array play no part in which axes an operation keeps.
\<close>

record has_array =
  ha_shape :: "nat list"
  ha_base_dims :: nat
  ha_ensemble_axes_metadata :: "axis_metadata list"

definition base_shape :: "has_array \<Rightarrow> nat list" where
  "base_shape self = py_last (ha_base_dims self) (ha_shape self)"

definition ensemble_shape :: "has_array \<Rightarrow> nat list" where
  "ensemble_shape self = py_but_last (ha_base_dims self) (ha_shape self)"

text \<open>
  \<open>self._array[items]\<close> on the shape, for items that are integers and slices: an integer
  removes its axis, a slice keeps it with the number of selected indices. The other two
  kinds of item never reach this point in \<open>get_items\<close>.
\<close>

fun index_shape :: "nat list \<Rightarrow> item list \<Rightarrow> error + nat list" where
  "index_shape shp [] = Inr shp"
| "index_shape [] (it # its) = Inl IndexError"
| "index_shape (n # shp) (IntIdx i # its) =
     (case np_index n i of Inl e \<Rightarrow> Inl e | Inr _ \<Rightarrow> index_shape shp its)"
| "index_shape (n # shp) (SliceIdx a b c # its) =
     (case slice_indices n a b c of
        Inl e \<Rightarrow> Inl e
      | Inr ks \<Rightarrow>
          (case index_shape shp its of Inl e \<Rightarrow> Inl e | Inr r \<Rightarrow> Inr (length ks # r)))"
| "index_shape (n # shp) (EllipsisIdx # its) = Inl NotImplementedError"
| "index_shape (n # shp) (NoneIdx # its) = Inl NotImplementedError"

text \<open>
  The loop over \<open>zip(self.ensemble_axes_metadata, items)\<close>, followed by
  \<open>new_axes_metadata += self.ensemble_axes_metadata[last_indexed:]\<close>.
\<close>

fun index_metadata :: "axis_metadata list \<Rightarrow> item list \<Rightarrow> error + axis_metadata list" where
  "index_metadata mds [] = Inr mds"
| "index_metadata [] (it # its) = Inr []"
| "index_metadata (md # mds) (it # its) =
     (if is_number it then index_metadata mds its
      else case ordinal_getitem md it of
             Inl e \<Rightarrow> Inl e
           | Inr md' \<Rightarrow>
               (case index_metadata mds its of Inl e \<Rightarrow> Inl e | Inr r \<Rightarrow> Inr (md' # r)))"

text \<open>
  \<open>HasArray.get_items\<close>, in the three steps of its body. The method \<open>_is_base_axis\<close> is
  inherited from a class that is not in the sources; it is the parameter \<open>is_base_axis\<close>.
\<close>

definition items_tuple :: "items_arg \<Rightarrow> error + item list" where
  \<comment> \<open>a single number or slice becomes a tuple of one item; anything else must be a tuple\<close>
  "items_tuple items0 =
     (case items0 of
        One (IntIdx i) \<Rightarrow> Inr [IntIdx i]
      | One (SliceIdx a b c) \<Rightarrow> Inr [SliceIdx a b c]
      | Tuple its \<Rightarrow> Inr its
      | _ \<Rightarrow> Inl NotImplementedError)"

definition keep_dims_items :: "bool \<Rightarrow> item list \<Rightarrow> item list" where
  \<comment> \<open>with \<open>keep_dims\<close> an integer \<open>i\<close> becomes \<open>slice(i, i + 1)\<close>\<close>
  "keep_dims_items keep_dims items =
     (if keep_dims
      then map (\<lambda>it. case it of IntIdx i \<Rightarrow> SliceIdx (Some i) (Some (i + 1)) None | _ \<Rightarrow> it) items
      else items)"

definition index_items ::
  "(has_array \<Rightarrow> nat list \<Rightarrow> bool) \<Rightarrow> has_array \<Rightarrow> item list \<Rightarrow> error + has_array"
where
  \<comment> \<open>from the check of the number of items to the new object\<close>
  "index_items is_base_axis self items =
     (if length items > length (ensemble_shape self) then Inl RuntimeError
      else if \<exists>it \<in> set items. it = EllipsisIdx \<or> it = NoneIdx then Inl NotImplementedError
      else
        (let axis_to_remove = filter (\<lambda>i. is_number (items ! i)) [0..<length items]
         in if is_base_axis self axis_to_remove then Inl RuntimeError
            else
              (case index_metadata (ha_ensemble_axes_metadata self) items of
                 Inl e \<Rightarrow> Inl e
               | Inr new_axes_metadata \<Rightarrow>
                   (case index_shape (ha_shape self) items of
                      Inl e \<Rightarrow> Inl e
                    | Inr shp \<Rightarrow>
                        Inr (self\<lparr>ha_shape := shp,
                                  ha_ensemble_axes_metadata := new_axes_metadata\<rparr>)))))"

definition get_items ::
  "(has_array \<Rightarrow> nat list \<Rightarrow> bool) \<Rightarrow> has_array \<Rightarrow> items_arg \<Rightarrow> bool \<Rightarrow> error + has_array"
where
  "get_items is_base_axis self items0 keep_dims =
     (case items_tuple items0 of
        Inl e \<Rightarrow> Inl e
      | Inr items \<Rightarrow> index_items is_base_axis self (keep_dims_items keep_dims items))"

text \<open>
  \<open>np.squeeze(array, axis)\<close> on the shape: every named axis must have size 1.
\<close>

definition np_squeeze :: "nat list \<Rightarrow> nat list \<Rightarrow> error + nat list" where
  "np_squeeze shp axes =
     (if \<exists>a \<in> set axes. a \<ge> length shp \<or> shp ! a \<noteq> 1 then Inl ValueError
      else Inr (map snd (filter (\<lambda>p. fst p \<notin> set axes) (enumerate 0 shp))))"

text \<open>
  \<open>HasArray.squeeze\<close>. The helper \<open>normalize_axes\<close> (\<open>abtem.core.utils\<close>) is not in the
  sources; it is the parameter \<open>normalize_axes\<close>. \<open>requested_axes\<close> and \<open>squeezed_axes\<close> are
  the locals \<open>axis\<close> and \<open>squeezed\<close> of the method.
\<close>

definition requested_axes ::
  "(int list \<Rightarrow> nat list \<Rightarrow> int list) \<Rightarrow> has_array \<Rightarrow> int list option \<Rightarrow> int list"
where
  \<comment> \<open>\<open>axis\<close> after the first \<open>if\<close>: every axis when none is given, else the normalised ones\<close>
  "requested_axes normalize_axes self axis0 =
     (case axis0 of
        None \<Rightarrow> map int [0..<length (ha_shape self)]
      | Some ax \<Rightarrow> normalize_axes ax (ha_shape self))"

definition squeezed_axes ::
  "(int list \<Rightarrow> nat list \<Rightarrow> int list) \<Rightarrow> has_array \<Rightarrow> int list option \<Rightarrow> nat list"
where
  "squeezed_axes normalize_axes self axis0 =
     (let axis = requested_axes normalize_axes self axis0;
          shp = py_but_last (length (base_shape self)) (ha_shape self)
      in filter (\<lambda>i. shp ! i = 1 \<and> int i \<in> set axis) [0..<length shp])"

definition squeeze ::
  "(int list \<Rightarrow> nat list \<Rightarrow> int list) \<Rightarrow> has_array \<Rightarrow> int list option \<Rightarrow> error + has_array"
where
  "squeeze normalize_axes self axis0 =
     (if length (ha_shape self) < length (base_shape self) then Inr self
      else
        (let squeezed = squeezed_axes normalize_axes self axis0
         in case np_squeeze (ha_shape self) squeezed of
              Inl e \<Rightarrow> Inl e
            | Inr shp \<Rightarrow>
                Inr (self\<lparr>ha_shape := shp,
                          ha_ensemble_axes_metadata :=
                            map snd (filter (\<lambda>p. fst p \<notin> set squeezed)
                                       (enumerate 0 (ha_ensemble_axes_metadata self)))\<rparr>)))"

text \<open>
  \<open>_reduce_ensemble\<close> (\<open>waves.py\<close>). Its argument is one object, or a list or tuple of
  arguments: on a list or tuple it maps itself over the elements, in order, and the first
  exception ends the call. On one object it asks \<open>squeeze\<close> for the axes whose metadata is
  squeeze-eligible; if the result has a method \<open>reduce_ensemble\<close>, what that method
  returns is returned instead. No class of the sources defines such a method: the
  parameter \<open>own_reduce\<close> gives, for an object, \<open>None\<close> when it has no method of that name
  and otherwise what calling it returns.
\<close>

datatype ensemble = Single has_array | Several "ensemble list"

fun sequence_results :: "(error + 'a) list \<Rightarrow> error + 'a list" where
  "sequence_results [] = Inr []"
| "sequence_results (Inl e # rs) = Inl e"
| "sequence_results (Inr x # rs) =
     (case sequence_results rs of Inl e \<Rightarrow> Inl e | Inr xs \<Rightarrow> Inr (x # xs))"

fun reduce_ensemble ::
  "(int list \<Rightarrow> nat list \<Rightarrow> int list) \<Rightarrow> (has_array \<Rightarrow> (error + has_array) option) \<Rightarrow>
   ensemble \<Rightarrow> error + ensemble"
where
  "reduce_ensemble normalize_axes own_reduce (Several ensembles) =
     (case sequence_results (map (reduce_ensemble normalize_axes own_reduce) ensembles) of
        Inl e \<Rightarrow> Inl e
      | Inr outputs \<Rightarrow> Inr (Several outputs))"
| "reduce_ensemble normalize_axes own_reduce (Single ensemble) =
     (let squeeze_arg = map (\<lambda>p. int (fst p))
                          (filter (\<lambda>p. am_squeeze (snd p))
                             (enumerate 0 (ha_ensemble_axes_metadata ensemble)))
      in case squeeze normalize_axes ensemble (Some squeeze_arg) of
           Inl e \<Rightarrow> Inl e
         | Inr output \<Rightarrow>
             (case own_reduce output of
                None \<Rightarrow> Inr (Single output)
              | Some (Inl e) \<Rightarrow> Inl e
              | Some (Inr reduced) \<Rightarrow> Inr (Single reduced)))"

text \<open>
  An item that addresses an axis of extent \<open>n\<close>: an integer within \<open>-n, ..., n - 1\<close>, or
  a slice whose step is not zero.
\<close>

definition valid_item :: "nat \<Rightarrow> item \<Rightarrow> bool" where
  "valid_item n it =
     (case it of
        IntIdx i \<Rightarrow> - int n \<le> i \<and> i < int n
      | SliceIdx a b c \<Rightarrow> c \<noteq> Some 0
      | _ \<Rightarrow> False)"

section \<open>\<open>waves/waves.py\<close> and \<open>waves.py\<close>: the entry points of the multislice and of the CTF\<close>















section \<open>\<open>core/integrals/infinite.py\<close>: projected potentials of infinite extent\<close>

text \<open>
  Arithmetic on arrays, cell by cell. numpy raises \<open>ValueError\<close> when the shapes of the
  two operands cannot be broadcast; here the shapes must be equal.
\<close>

definition astype_complex :: "real ndarray \<Rightarrow> complex ndarray" where
  "astype_complex a = \<lparr>shape = shape a, cells = (\<lambda>p. complex_of_real (cells a p))\<rparr>"

definition real_part :: "complex ndarray \<Rightarrow> real ndarray" where
  \<comment> \<open>\<open>array.real\<close>\<close>
  "real_part a = \<lparr>shape = shape a, cells = (\<lambda>p. Re (cells a p))\<rparr>"

definition zeros_complex :: "nat \<times> nat \<Rightarrow> complex ndarray" where
  "zeros_complex shp = \<lparr>shape = shp, cells = (\<lambda>_. 0)\<rparr>"

definition cell_add :: "('a::plus) ndarray \<Rightarrow> 'a ndarray \<Rightarrow> 'a ndarray" where
  "cell_add a b = \<lparr>shape = shape a, cells = (\<lambda>p. cells a p + cells b p)\<rparr>"

definition cell_mult :: "('a::times) ndarray \<Rightarrow> 'a ndarray \<Rightarrow> 'a ndarray" where
  "cell_mult a b = \<lparr>shape = shape a, cells = (\<lambda>p. cells a p * cells b p)\<rparr>"

definition multiply :: "complex ndarray \<Rightarrow> complex ndarray \<Rightarrow> error + complex ndarray" where
  \<comment> \<open>\<open>a * b\<close>\<close>
  "multiply a b = (if shape a = shape b then Inr (cell_mult a b) else Inl ValueError)"

definition iadd :: "complex ndarray \<Rightarrow> complex ndarray \<Rightarrow> error + complex ndarray" where
  \<comment> \<open>\<open>a += b\<close>\<close>
  "iadd a b = (if shape a = shape b then Inr (cell_add a b) else Inl ValueError)"

text \<open>
  \<open>np.unique\<close>: the distinct values in increasing order.
\<close>

definition unique :: "int list \<Rightarrow> int list" where
  "unique xs = sort (remdups xs)"

text \<open>
  \<open>(atoms.positions[:, :2] / sampling)\<close>; the two entries of \<open>sampling\<close> are taken to be
  non-zero. \<open>positions[mask]\<close> for \<open>mask = atoms.numbers == number\<close>.
\<close>

definition scaled_positions :: "atoms \<Rightarrow> real \<times> real \<Rightarrow> (real \<times> real) list" where
  "scaled_positions a sampling =
     map (\<lambda>p. (fst p / fst sampling, fst (snd p) / snd sampling)) (at_positions a)"

definition masked :: "'a list \<Rightarrow> bool list \<Rightarrow> 'a list" where
  "masked xs sel = map fst (filter snd (zip xs sel))"

text \<open>
  The functions \<open>fft2\<close>, \<open>ifft2\<close> and \<open>fft2_convolve\<close> (\<open>abtem.core.fft\<close>) are not in the
  sources. The two transforms are the parameters \<open>fft2\<close> and \<open>ifft2\<close>.

  Modelled from the spec: \<open>fft2_convolve\<close> is the spec's convolution "in the Fourier
  domain": transform, multiply by the kernel, transform back.
\<close>

definition fft2_convolve ::
  "(complex ndarray \<Rightarrow> complex ndarray) \<Rightarrow> (complex ndarray \<Rightarrow> complex ndarray) \<Rightarrow>
   complex ndarray \<Rightarrow> complex ndarray \<Rightarrow> error + complex ndarray"
where
  "fft2_convolve fft2 ifft2 x factor =
     (case multiply (fft2 x) factor of Inl e \<Rightarrow> Inl e | Inr y \<Rightarrow> Inr (ifft2 y))"

text \<open>
  The loop \<open>for i, number in enumerate(unique)\<close> of the branch for several species, on
  the accumulator \<open>array\<close>. A missing key of the dictionary raises \<open>KeyError\<close>.
\<close>

fun accumulate_species ::
  "(complex ndarray \<Rightarrow> complex ndarray) \<Rightarrow> (real \<times> real) list \<Rightarrow> int list \<Rightarrow>
   (int \<times> complex ndarray) list \<Rightarrow> 'si option \<Rightarrow> complex ndarray \<Rightarrow> int list \<Rightarrow>
   error + complex ndarray"
where
  "accumulate_species fft2 positions numbers scattering_factors slice_index array [] = Inr array"
| "accumulate_species fft2 positions numbers scattering_factors slice_index array (number # rest) =
     (let temp = zeros (shape array);
          sel = map (\<lambda>n. n = number) numbers
      in if \<not> (\<exists>m \<in> set sel. m)
         then accumulate_species fft2 positions numbers scattering_factors slice_index array rest
         else
           (case superpose_deltas (masked positions sel) temp slice_index None of
              Inl e \<Rightarrow> Inl e
            | Inr temp' \<Rightarrow>
                (case map_of scattering_factors number of
                   None \<Rightarrow> Inl KeyError
                 | Some factor \<Rightarrow>
                     (case multiply (fft2 (astype_complex temp')) factor of
                        Inl e \<Rightarrow> Inl e
                      | Inr term \<Rightarrow>
                          (case iadd array term of
                             Inl e \<Rightarrow> Inl e
                           | Inr array' \<Rightarrow>
                               accumulate_species fft2 positions numbers scattering_factors
                                 slice_index array' rest)))))"

text \<open>
  \<open>infinite_potential_projections\<close>. The argument \<open>shape\<close> is (slices, rows, columns);
  the dictionary \<open>scattering_factors\<close> is a list of pairs. The result has a leading axis:
  a list of two-dimensional arrays. With a \<open>slice_index\<close> both branches end in the
  \<open>NotImplementedError\<close> of \<open>superpose_deltas\<close>, before the shape of the buffer matters.
  The positions and the atomic numbers have one entry for each atom; \<open>unique[0]\<close> of an
  empty array raises \<open>IndexError\<close>.
\<close>

definition infinite_potential_projections ::
  "(complex ndarray \<Rightarrow> complex ndarray) \<Rightarrow> (complex ndarray \<Rightarrow> complex ndarray) \<Rightarrow>
   atoms \<Rightarrow> nat \<times> nat \<times> nat \<Rightarrow> real \<times> real \<Rightarrow> (int \<times> complex ndarray) list \<Rightarrow>
   'si option \<Rightarrow> error + real ndarray list"
where
  "infinite_potential_projections fft2 ifft2 a shape3 sampling scattering_factors slice_index =
     (if scattering_factors = [] then Inl IndexError
      else if length (at_positions a) = 0
      then Inr (replicate (fst shape3) (zeros (snd shape3)))
      else
        (let shp = snd shape3;
             positions = scaled_positions a sampling;
             uniq = unique (at_numbers a)
         in if length uniq > 1 then
              (case accumulate_species fft2 positions (at_numbers a) scattering_factors
                      slice_index (zeros_complex shp) uniq of
                 Inl e \<Rightarrow> Inl e
               | Inr array \<Rightarrow> Inr [real_part (ifft2 array)])
            else
              (case superpose_deltas positions (zeros shp) slice_index None of
                 Inl e \<Rightarrow> Inl e
               | Inr array \<Rightarrow>
                   (case uniq of
                      [] \<Rightarrow> Inl IndexError
                    | number # _ \<Rightarrow>
                        (case map_of scattering_factors number of
                           None \<Rightarrow> Inl KeyError
                         | Some factor \<Rightarrow>
                             (case fft2_convolve fft2 ifft2 (astype_complex array) factor of
                                Inl e \<Rightarrow> Inl e
                              | Inr conv \<Rightarrow> Inr [real_part conv]))))))"

text \<open>The sum over a list of arrays of one shape, for stating the equivalence.\<close>

definition array_sum :: "nat \<times> nat \<Rightarrow> real ndarray list \<Rightarrow> real ndarray" where
  "array_sum shp xs = foldl cell_add (zeros shp) xs"

text \<open>
  The density map of a list of points: the cells of an empty grid after the scatter-add,
  each the sum of the deposits addressed to it.
\<close>

definition density :: "nat \<times> nat \<Rightarrow> (real \<times> real) list \<Rightarrow> real ndarray" where
  "density shp ps =
     \<lparr>shape = shp,
      cells = (\<lambda>cell. sum_list (map (\<lambda>d. snd (snd d))
                 (filter (\<lambda>d. (nat (fst d), nat (fst (snd d))) = cell)
                    (sd_deposits (sd_i shp ps) (sd_j shp ps) (sd_v ps)))))\<rparr>"

text \<open>
  The contribution of one species to the accumulator: the transform of its density map,
  times its scattering factor.
\<close>

definition species_term ::
  "(complex ndarray \<Rightarrow> complex ndarray) \<Rightarrow> nat \<times> nat \<Rightarrow> (real \<times> real) list \<Rightarrow> int list \<Rightarrow>
   (int \<times> complex ndarray) list \<Rightarrow> int \<Rightarrow> complex ndarray"
where
  "species_term fft2 shp positions numbers scattering_factors number =
     cell_mult (fft2 (astype_complex (density shp (masked positions (map (\<lambda>n. n = number) numbers)))))
               (the (map_of scattering_factors number))"

text \<open>
  What the equivalence asks of the two transforms: they keep the shape, and the inverse
  transform of a sum of two arrays of one shape is the sum of their inverse transforms.
\<close>

definition keeps_shape :: "(complex ndarray \<Rightarrow> complex ndarray) \<Rightarrow> bool" where
  "keeps_shape f = (\<forall>x. shape (f x) = shape x)"

definition additive :: "(complex ndarray \<Rightarrow> complex ndarray) \<Rightarrow> bool" where
  "additive f = (\<forall>x y. shape x = shape y \<longrightarrow> f (cell_add x y) = cell_add (f x) (f y))"

text \<open>
  An instance of the two parameters: the two-dimensional discrete Fourier transform and
  its inverse, with numpy's normalisation.
\<close>

definition dft2 :: "complex ndarray \<Rightarrow> complex ndarray" where
  "dft2 a =
     \<lparr>shape = shape a,
      cells = (\<lambda>k. \<Sum>r < fst (shape a). \<Sum>c < snd (shape a).
                 cells a (r, c) *
                 cis (- 2 * pi * (real (fst k) * real r / real (fst (shape a))
                                  + real (snd k) * real c / real (snd (shape a)))))\<rparr>"

definition idft2 :: "complex ndarray \<Rightarrow> complex ndarray" where
  "idft2 a =
     \<lparr>shape = shape a,
      cells = (\<lambda>k. (\<Sum>r < fst (shape a). \<Sum>c < snd (shape a).
                 cells a (r, c) *
                 cis (2 * pi * (real (fst k) * real r / real (fst (shape a))
                                + real (snd k) * real c / real (snd (shape a)))))
               / of_nat (fst (shape a) * snd (shape a)))\<rparr>"

section \<open>Concrete structures used to evaluate the definitions\<close>

definition two_atoms :: atoms where
  "two_atoms = \<lparr>at_positions = [(0, 0, 1 / 2), (0, 0, 3 / 2)], at_numbers = [14, 14],
                at_cell = ((10, 0, 0), (0, 10, 0), (0, 0, 2))\<rparr>"

definition two_slices :: sliced_atoms where
  "two_slices = \<lparr>sa_atoms = two_atoms, sa_slice_thickness = [1, 1],
                 sa_xy_padding = 0, sa_z_padding = 0\<rparr>"

definition three_atoms :: atoms where
  \<comment> \<open>the third atom sits on the upper face of the cell\<close>
  "three_atoms = \<lparr>at_positions = [(0, 0, 1 / 2), (0, 0, 3 / 2), (0, 0, 2)],
                  at_numbers = [14, 14, 14],
                  at_cell = ((10, 0, 0), (0, 10, 0), (0, 0, 2))\<rparr>"

definition three_indexed :: slice_indexed_atoms where
  "three_indexed = \<lparr>sia_atoms = three_atoms, sia_slice_thickness = [1, 1],
                    sia_slice_index = [[0], [1]]\<rparr>"

definition waves_like :: has_array where
  \<comment> \<open>two ensemble axes of sizes 2 and 3 over a \<open>4 \<times> 4\<close> base\<close>
  "waves_like = \<lparr>ha_shape = [2, 3, 4, 4], ha_base_dims = 2,
                 ha_ensemble_axes_metadata =
                   [\<lparr>am_values = Some [''a'', ''b''], am_squeeze = False\<rparr>,
                    \<lparr>am_values = None, am_squeeze = False\<rparr>]\<rparr>"

definition base_axis_test :: "has_array \<Rightarrow> nat list \<Rightarrow> bool" where
  \<comment> \<open>an instance of the parameter \<open>is_base_axis\<close>: some axis is not an ensemble axis\<close>
  "base_axis_test self axes = (\<exists>a \<in> set axes. a \<ge> length (ensemble_shape self))"

definition plain_image :: has_array where
  \<comment> \<open>no ensemble axis\<close>
  "plain_image = \<lparr>ha_shape = [4, 4], ha_base_dims = 2, ha_ensemble_axes_metadata = []\<rparr>"

definition single_wave :: has_array where
  \<comment> \<open>one ensemble axis of size 1 whose metadata is not squeeze-eligible\<close>
  "single_wave = \<lparr>ha_shape = [1, 4, 4], ha_base_dims = 2,
                  ha_ensemble_axes_metadata = [\<lparr>am_values = None, am_squeeze = False\<rparr>]\<rparr>"

definition scanned_waves :: has_array where
  \<comment> \<open>ensemble axes of sizes 1, 1 and 5; only the first is squeeze-eligible\<close>
  "scanned_waves = \<lparr>ha_shape = [1, 1, 5, 4, 4], ha_base_dims = 2,
                    ha_ensemble_axes_metadata =
                      [\<lparr>am_values = None, am_squeeze = True\<rparr>,
                       \<lparr>am_values = None, am_squeeze = False\<rparr>,
                       \<lparr>am_values = None, am_squeeze = True\<rparr>]\<rparr>"

definition wrap_negative :: "int list \<Rightarrow> nat list \<Rightarrow> int list" where
  \<comment> \<open>an instance of the parameter \<open>normalize_axes\<close>: a negative axis counts from the end\<close>
  "wrap_negative ax shp = map (\<lambda>a. if a < 0 then a + int (length shp) else a) ax"








definition carbon_silicon :: atoms where
  \<comment> \<open>one carbon and one silicon atom\<close>
  "carbon_silicon = \<lparr>at_positions = [(1 / 2, 1 / 2, 0), (3 / 2, 1 / 4, 1)], at_numbers = [14, 6],
                     at_cell = ((2, 0, 0), (0, 2, 0), (0, 0, 2))\<rparr>"

definition flat_factors :: "(int \<times> complex ndarray) list" where
  \<comment> \<open>constant scattering factors on a \<open>2 \<times> 2\<close> grid\<close>
  "flat_factors = [(6, \<lparr>shape = (2, 2), cells = (\<lambda>_. 1)\<rparr>),
                   (14, \<lparr>shape = (2, 2), cells = (\<lambda>_. 2)\<rparr>)]"

section \<open>Properties of the scatter-add\<close>

lemma astype_int32_floor:
  "astype_int32 (np_floor x) =
     (if - (2 ^ 31) \<le> \<lfloor>x\<rfloor> \<and> \<lfloor>x\<rfloor> < 2 ^ 31 then \<lfloor>x\<rfloor> else - (2 ^ 31))"
  by (simp add: astype_int32_def np_floor_def Let_def)

lemma int32_id: "- (2 ^ 31) \<le> a \<Longrightarrow> a < 2 ^ 31 \<Longrightarrow> int32 a = a"
  by (simp add: int32_def)

lemma within_int32_row:
  assumes "within_int32 p"
  shows "point_row p = \<lfloor>fst p\<rfloor> \<and> int32 (\<lfloor>fst p\<rfloor> + 1) = \<lfloor>fst p\<rfloor> + 1"
proof -
  define k where "k = \<lfloor>fst p\<rfloor>"
  from assms have a: "- (2 ^ 31) \<le> k" "k + 1 < 2 ^ 31"
    unfolding within_int32_def k_def by blast+
  have r: "point_row p = k"
    unfolding point_row_def astype_int32_floor k_def[symmetric] using a by simp
  have "int32 (k + 1) = k + 1"
    using a by (intro int32_id) simp_all
  with r show ?thesis unfolding k_def by simp
qed

lemma within_int32_col:
  assumes "within_int32 p"
  shows "point_col p = \<lfloor>snd p\<rfloor> \<and> int32 (\<lfloor>snd p\<rfloor> + 1) = \<lfloor>snd p\<rfloor> + 1"
proof -
  define k where "k = \<lfloor>snd p\<rfloor>"
  from assms have a: "- (2 ^ 31) \<le> k" "k + 1 < 2 ^ 31"
    unfolding within_int32_def k_def by blast+
  have r: "point_col p = k"
    unfolding point_col_def astype_int32_floor k_def[symmetric] using a by simp
  have "int32 (k + 1) = k + 1"
    using a by (intro int32_id) simp_all
  with r show ?thesis unfolding k_def by simp
qed

lemma within_int32_off:
  "within_int32 p \<Longrightarrow> off_row p = frac_row p \<and> off_col p = frac_col p"
  by (simp add: off_row_def off_col_def frac_row_def frac_col_def within_int32_row within_int32_col)


lemma sd_rows_map: "sd_rows ps = map point_row ps"
  by (simp add: sd_rows_def point_row_def)

lemma sd_cols_map: "sd_cols ps = map point_col ps"
  by (simp add: sd_cols_def point_col_def)

lemma sd_x_map: "sd_x ps = map off_row ps"
  by (simp add: sd_x_def sd_rows_map zip_map2 zip_same_conv_map off_row_def)

lemma sd_y_map: "sd_y ps = map off_col ps"
  by (simp add: sd_y_def sd_cols_map zip_map2 zip_same_conv_map off_col_def)

lemma sd_xy_map: "sd_xy ps = map (\<lambda>p. off_row p * off_col p) ps"
  by (simp add: sd_xy_def sd_x_map sd_y_map zip_map_map zip_same_conv_map)

lemma sd_v_map:
  "sd_v ps =
     [map (\<lambda>p. 1 + off_row p * off_col p - off_col p - off_row p) ps,
      map (\<lambda>p. off_row p - off_row p * off_col p) ps,
      map (\<lambda>p. off_col p - off_row p * off_col p) ps,
      map (\<lambda>p. off_row p * off_col p) ps]"
  by (simp add: sd_v_def Let_def sd_xy_map sd_x_map sd_y_map zip_map_map zip_same_conv_map)

lemma sd_i_map:
  "sd_i shp ps =
     [map (\<lambda>p. np_mod (point_row p) (fst shp)) ps,
      map (\<lambda>p. np_mod (int32 (point_row p + 1)) (fst shp)) ps,
      map (\<lambda>p. np_mod (point_row p) (fst shp)) ps,
      map (\<lambda>p. np_mod (int32 (point_row p + 1)) (fst shp)) ps]"
  by (simp add: sd_i_def sd_rows_map Let_def comp_def)

lemma sd_j_map:
  "sd_j shp ps =
     [map (\<lambda>p. np_mod (point_col p) (snd shp)) ps,
      map (\<lambda>p. np_mod (point_col p) (snd shp)) ps,
      map (\<lambda>p. np_mod (int32 (point_col p + 1)) (snd shp)) ps,
      map (\<lambda>p. np_mod (int32 (point_col p + 1)) (snd shp)) ps]"
  by (simp add: sd_j_def sd_cols_map Let_def comp_def)

lemma sd_index_pairs:
  "zip (concat (sd_i shp ps)) (concat (sd_j shp ps)) =
     map (\<lambda>p. (np_mod (point_row p) (fst shp), np_mod (point_col p) (snd shp))) ps
   @ map (\<lambda>p. (np_mod (int32 (point_row p + 1)) (fst shp), np_mod (point_col p) (snd shp))) ps
   @ map (\<lambda>p. (np_mod (point_row p) (fst shp), np_mod (int32 (point_col p + 1)) (snd shp))) ps
   @ map (\<lambda>p. (np_mod (int32 (point_row p + 1)) (fst shp),
                np_mod (int32 (point_col p + 1)) (snd shp))) ps"
  by (simp add: sd_i_map sd_j_map zip_map_map zip_same_conv_map)

lemma sd_deposits_unweighted:
  "sd_deposits (sd_i shp ps) (sd_j shp ps) (sd_v ps) =
     map (\<lambda>p. (np_mod (point_row p) (fst shp), np_mod (point_col p) (snd shp),
                1 + off_row p * off_col p - off_col p - off_row p)) ps
   @ map (\<lambda>p. (np_mod (int32 (point_row p + 1)) (fst shp), np_mod (point_col p) (snd shp),
                off_row p - off_row p * off_col p)) ps
   @ map (\<lambda>p. (np_mod (point_row p) (fst shp), np_mod (int32 (point_col p + 1)) (snd shp),
                off_col p - off_row p * off_col p)) ps
   @ map (\<lambda>p. (np_mod (int32 (point_row p + 1)) (fst shp),
                np_mod (int32 (point_col p + 1)) (snd shp),
                off_row p * off_col p)) ps"
  by (simp add: sd_deposits_def sd_i_map sd_j_map sd_v_map zip_map_map zip_same_conv_map)

lemma sum_list_filter_map:
  "sum_list (map val (filter P (map f ps))) = (\<Sum>p\<leftarrow>ps. if P (f p) then val (f p) else (0::real))"
  by (induction ps) auto

lemma sd_deposits_cell:
  "sum_list (map (\<lambda>d. snd (snd d)) (filter (\<lambda>d. (nat (fst d), nat (fst (snd d))) = cell)
           (sd_deposits (sd_i shp ps) (sd_j shp ps) (sd_v ps))))
         = (\<Sum>p\<leftarrow>ps. point_deposit shp p cell)"
proof -
  have b: "point_deposit shp p cell =
      (if (nat (np_mod (point_row p) (fst shp)), nat (np_mod (point_col p) (snd shp))) = cell
       then 1 + off_row p * off_col p - off_col p - off_row p else 0)
    + (if (nat (np_mod (int32 (point_row p + 1)) (fst shp)), nat (np_mod (point_col p) (snd shp))) = cell
       then off_row p - off_row p * off_col p else 0)
    + (if (nat (np_mod (point_row p) (fst shp)), nat (np_mod (int32 (point_col p + 1)) (snd shp))) = cell
       then off_col p - off_row p * off_col p else 0)
    + (if (nat (np_mod (int32 (point_row p + 1)) (fst shp)),
           nat (np_mod (int32 (point_col p + 1)) (snd shp))) = cell
       then off_row p * off_col p else 0)" for p
    unfolding point_deposit_def Let_def by (simp only: eq_commute[of cell])
  show ?thesis
    unfolding sd_deposits_unweighted filter_append map_append sum_list_append
      sum_list_filter_map b
    by (simp add: sum_list_addf cong: if_cong)
qed

lemma within_int32_deposit:
  "within_int32 p \<Longrightarrow> point_deposit shp p cell = bilinear_deposit shp p cell"
  by (simp add: point_deposit_def bilinear_deposit_def Let_def within_int32_row within_int32_col
      within_int32_off)

lemma within_int32_deposits:
  assumes "\<forall>p \<in> set ps. within_int32 p"
  shows "(\<Sum>p\<leftarrow>ps. point_deposit shp p cell) = (\<Sum>p\<leftarrow>ps. bilinear_deposit shp p cell)"
proof -
  have "map (\<lambda>p. point_deposit shp p cell) ps = map (\<lambda>p. bilinear_deposit shp p cell) ps"
    using assms by (simp add: within_int32_deposit)
  then show ?thesis by (rule arg_cong[of _ _ sum_list])
qed

lemma np_mod_range: "0 < n \<Longrightarrow> 0 \<le> np_mod a n \<and> np_mod a n < int n"
  by (simp add: np_mod_def)


lemma sd_index_pairs_range:
  assumes "0 < s0" "0 < s1" "(i, j) \<in> set (zip (concat (sd_i (s0, s1) ps)) (concat (sd_j (s0, s1) ps)))"
  shows "0 \<le> i \<and> i < int s0 \<and> 0 \<le> j \<and> j < int s1"
  using assms by (auto simp: sd_index_pairs np_mod_range)


lemma sd_deposits_index:
  "(i, j, v) \<in> set (sd_deposits is js vs) \<Longrightarrow> (i, j) \<in> set (zip (concat is) (concat js))"
  unfolding sd_deposits_def by (auto simp: set_zip)

lemma add_at_ok:
  "shape a = (s0, s1) \<Longrightarrow>
   \<forall>d \<in> set ds. 0 \<le> fst d \<and> fst d < int s0 \<and> 0 \<le> fst (snd d) \<and> fst (snd d) < int s1 \<Longrightarrow>
   \<exists>a'. add_at a ds = Inr a' \<and> shape a' = shape a \<and>
     (\<forall>cell. cells a' cell = cells a cell
        + sum_list (map (\<lambda>d. snd (snd d)) (filter (\<lambda>d. (nat (fst d), nat (fst (snd d))) = cell) ds)))"
proof (induction ds arbitrary: a)
  case Nil
  then show ?case by simp
next
  case (Cons d ds)
  obtain i j v where d: "d = (i, j, v)" by (cases d) auto
  from Cons.prems d have ij: "0 \<le> i" "i < int s0" "0 \<le> j" "j < int s1" by auto
  let ?a = "a\<lparr>cells := (cells a)((nat i, nat j) := cells a (nat i, nat j) + v)\<rparr>"
  have sh: "shape ?a = (s0, s1)" using Cons.prems by simp
  from Cons.IH[OF sh] Cons.prems(2)
  obtain a' where a': "add_at ?a ds = Inr a'" "shape a' = shape ?a"
    "\<forall>cell. cells a' cell = cells ?a cell
       + sum_list (map (\<lambda>d. snd (snd d)) (filter (\<lambda>d. (nat (fst d), nat (fst (snd d))) = cell) ds))"
    by auto
  have "add_at a (d # ds) = Inr a'"
    using a'(1) ij Cons.prems(1) by (simp add: d np_index_def)
  moreover have "shape a' = shape a" using a'(2) by simp
  moreover have "\<forall>cell. cells a' cell = cells a cell
       + sum_list (map (\<lambda>d. snd (snd d)) (filter (\<lambda>d. (nat (fst d), nat (fst (snd d))) = cell) (d # ds)))"
    using a'(3) by (auto simp: d)
  ultimately show ?case by blast
qed


lemma add_at_error: "add_at a ds = Inl e \<Longrightarrow> e = IndexError"
proof (induction ds arbitrary: a)
  case Nil
  then show ?case by simp
next
  case (Cons d ds)
  obtain i j v where d: "d = (i, j, v)" by (cases d) auto
  show ?case using Cons
    by (auto simp: d np_index_def split: sum.splits if_splits)
qed

lemma add_at_more: "add_at a ds = Inr a' \<Longrightarrow> a' = a\<lparr>cells := cells a'\<rparr>"
proof (induction ds arbitrary: a)
  case Nil
  then show ?case by simp
next
  case (Cons d ds)
  obtain i j v where d: "d = (i, j, v)" by (cases d) auto
  from Cons.prems obtain r c where
    rest: "add_at (a\<lparr>cells := (cells a)((r, c) := cells a (r, c) + v)\<rparr>) ds = Inr a'"
    by (auto simp: d split: sum.splits)
  from Cons.IH[OF rest] have "a' = a\<lparr>cells := (cells a)((r, c) := cells a (r, c) + v)\<rparr>\<lparr>cells := cells a'\<rparr>" .
  then show ?case by simp
qed



lemma sd_weighted_cases:
  "sd_weighted v n weights = Inl e \<Longrightarrow> e = ValueError"
  by (auto simp: sd_weighted_def split: option.splits if_splits)

lemma superpose_deltas_returns:
  assumes "0 < s0" "0 < s1" "shape array = (s0, s1)"
  shows "\<exists>a'. superpose_deltas positions array (None :: 'si option) None = Inr a' \<and> shape a' = shape array \<and>
     (\<forall>cell. cells a' cell = cells array cell
        + sum_list (map (\<lambda>d. snd (snd d)) (filter (\<lambda>d. (nat (fst d), nat (fst (snd d))) = cell)
            (sd_deposits (sd_i (s0, s1) positions) (sd_j (s0, s1) positions) (sd_v positions)))))"
proof -
  let ?ds = "sd_deposits (sd_i (s0, s1) positions) (sd_j (s0, s1) positions) (sd_v positions)"
  have rng: "\<forall>d \<in> set ?ds. 0 \<le> fst d \<and> fst d < int s0 \<and> 0 \<le> fst (snd d) \<and> fst (snd d) < int s1"
  proof
    fix d assume "d \<in> set ?ds"
    then have "(fst d, fst (snd d), snd (snd d)) \<in> set ?ds" by simp
    from sd_index_pairs_range[OF assms(1,2) sd_deposits_index[OF this]]
    show "0 \<le> fst d \<and> fst d < int s0 \<and> 0 \<le> fst (snd d) \<and> fst (snd d) < int s1" .
  qed
  have eq: "superpose_deltas positions array (None :: 'si option) None = add_at array ?ds"
    by (simp add: superpose_deltas_def Let_def sd_weighted_def assms(3))
  show ?thesis unfolding eq by (rule add_at_ok[OF assms(3) rng])
qed

lemma superpose_deltas_value:
  assumes "0 < s0" "0 < s1" "shape array = (s0, s1)"
  shows "superpose_deltas positions array (None :: 'si option) None =
     Inr (array\<lparr>cells := (\<lambda>cell. cells array cell
            + (\<Sum>p\<leftarrow>positions. point_deposit (s0, s1) p cell))\<rparr>)"
proof -
  let ?ds = "sd_deposits (sd_i (s0, s1) positions) (sd_j (s0, s1) positions) (sd_v positions)"
  have eq: "superpose_deltas positions array (None :: 'si option) None = add_at array ?ds"
    by (simp add: superpose_deltas_def Let_def sd_weighted_def assms(3))
  from superpose_deltas_returns[OF assms(1-3), of positions, where 'si = 'si]
  obtain a' where a': "superpose_deltas positions array (None :: 'si option) None = Inr a'"
    "\<forall>cell. cells a' cell = cells array cell
        + sum_list (map (\<lambda>d. snd (snd d)) (filter (\<lambda>d. (nat (fst d), nat (fst (snd d))) = cell) ?ds))"
    by blast
  have c: "cells a' = (\<lambda>cell. cells array cell + (\<Sum>p\<leftarrow>positions. point_deposit (s0, s1) p cell))"
  proof
    fix cell
    show "cells a' cell = cells array cell + (\<Sum>p\<leftarrow>positions. point_deposit (s0, s1) p cell)"
      by (simp only: a'(2)[rule_format] sd_deposits_cell)
  qed
  from a'(1) eq have "add_at array ?ds = Inr a'" by simp
  from add_at_more[OF this] have "a' = array\<lparr>cells := cells a'\<rparr>" .
  with c have "a' = array\<lparr>cells := (\<lambda>cell. cells array cell
            + (\<Sum>p\<leftarrow>positions. point_deposit (s0, s1) p cell))\<rparr>" by simp
  with a'(1) show ?thesis by simp
qed

lemma superpose_deltas_value_within:
  assumes "0 < s0" "0 < s1" "shape array = (s0, s1)" "\<forall>p \<in> set positions. within_int32 p"
  shows "superpose_deltas positions array (None :: 'si option) None =
     Inr (array\<lparr>cells := (\<lambda>cell. cells array cell
            + (\<Sum>p\<leftarrow>positions. bilinear_deposit (s0, s1) p cell))\<rparr>)"
  unfolding superpose_deltas_value[OF assms(1-3)] within_int32_deposits[OF assms(4)] ..



lemma np_index_mod: "0 < n \<Longrightarrow> np_index n (a mod int n) = Inr (nat (a mod int n))"
  by (simp add: np_index_def)





lemma superpose_deltas_no_index_error:
  assumes "0 < s0" "0 < s1" "shape array = (s0, s1)"
  shows "superpose_deltas positions array slice_index weights \<noteq> Inl IndexError"
proof (cases "slice_index = None")
  case False
  then show ?thesis by (auto simp: superpose_deltas_def)
next
  case True
  show ?thesis
  proof (cases "sd_weighted (sd_v positions) (length positions) weights")
    case (Inl e)
    then have "e = ValueError" by (rule sd_weighted_cases)
    with Inl True show ?thesis by (simp add: superpose_deltas_def Let_def)
  next
    case (Inr v')
    let ?ds = "sd_deposits (sd_i (s0, s1) positions) (sd_j (s0, s1) positions) v'"
    have rng: "\<forall>d \<in> set ?ds. 0 \<le> fst d \<and> fst d < int s0 \<and> 0 \<le> fst (snd d) \<and> fst (snd d) < int s1"
    proof
      fix d assume "d \<in> set ?ds"
      then have "(fst d, fst (snd d), snd (snd d)) \<in> set ?ds" by simp
      from sd_index_pairs_range[OF assms(1,2) sd_deposits_index[OF this]]
      show "0 \<le> fst d \<and> fst d < int s0 \<and> 0 \<le> fst (snd d) \<and> fst (snd d) < int s1" .
    qed
    from add_at_ok[OF assms(3) rng] obtain a' where "add_at array ?ds = Inr a'" by blast
    with Inr True assms(3) show ?thesis by (simp add: superpose_deltas_def Let_def)
  qed
qed

lemma floor_half_below: "\<lfloor>real n - 1 / 2\<rfloor> = int n - 1"
  by (simp add: floor_eq_iff)

lemma pred_mod_self: "0 < n \<Longrightarrow> (int n - 1) mod int n = int n - 1"
  by (rule mod_pos_pos_trivial) auto

lemma half_below_within:
  assumes "int s0 < 2 ^ 31" "- (2 ^ 31) \<le> \<lfloor>q\<rfloor>" "\<lfloor>q\<rfloor> + 1 < 2 ^ 31"
  shows "within_int32 (real s0 - 1 / 2, q)"
proof -
  have "- (2 ^ 31) \<le> int s0 - 1" "int s0 - 1 + 1 < 2 ^ 31" using assms(1) by simp_all
  with assms(2,3) show ?thesis
    unfolding within_int32_def fst_conv snd_conv floor_half_below by blast
qed

lemma half_below_deposit:
  assumes "0 < s0" "0 < s1"
  shows "bilinear_deposit (s0, s1) (real s0 - 1 / 2, q) cell =
      (if cell = (s0 - 1, nat (\<lfloor>q\<rfloor> mod int s1)) then (1 - (q - of_int \<lfloor>q\<rfloor>)) / 2 else 0)
    + (if cell = (0, nat (\<lfloor>q\<rfloor> mod int s1)) then (1 - (q - of_int \<lfloor>q\<rfloor>)) / 2 else 0)
    + (if cell = (s0 - 1, nat ((\<lfloor>q\<rfloor> + 1) mod int s1)) then (q - of_int \<lfloor>q\<rfloor>) / 2 else 0)
    + (if cell = (0, nat ((\<lfloor>q\<rfloor> + 1) mod int s1)) then (q - of_int \<lfloor>q\<rfloor>) / 2 else 0)"
proof -
  have a: "nat (np_mod (int s0 - 1) s0) = s0 - 1"
    using assms(1) pred_mod_self[OF assms(1)] by (simp only: np_mod_def) simp
  have b: "nat (np_mod (int s0 - 1 + 1) s0) = 0"
    using assms(1) by (simp add: np_mod_def)
  have c: "np_mod k s1 = k mod int s1" for k
    using assms(2) by (simp add: np_mod_def)
  have x: "frac_row (real s0 - 1 / 2, q) = 1 / 2"
    unfolding frac_row_def fst_conv floor_half_below by simp
  have y: "frac_col (real s0 - 1 / 2, q) = q - of_int \<lfloor>q\<rfloor>"
    by (simp add: frac_col_def)
  show ?thesis
    unfolding bilinear_deposit_def Let_def fst_conv snd_conv floor_half_below a b c x y
    by (simp add: field_simps cong: if_cong)
qed

lemma superpose_deltas_half_below:
  assumes "0 < s0" "0 < s1" "shape array = (s0, s1)"
      and "int s0 < 2 ^ 31" "- (2 ^ 31) \<le> \<lfloor>q\<rfloor>" "\<lfloor>q\<rfloor> + 1 < 2 ^ 31"
  shows "superpose_deltas [(real s0 - 1 / 2, q)] array (None :: 'si option) None =
     Inr (array\<lparr>cells := (\<lambda>cell. cells array cell
        + ((if cell = (s0 - 1, nat (\<lfloor>q\<rfloor> mod int s1)) then (1 - (q - of_int \<lfloor>q\<rfloor>)) / 2 else 0)
         + (if cell = (0, nat (\<lfloor>q\<rfloor> mod int s1)) then (1 - (q - of_int \<lfloor>q\<rfloor>)) / 2 else 0)
         + (if cell = (s0 - 1, nat ((\<lfloor>q\<rfloor> + 1) mod int s1)) then (q - of_int \<lfloor>q\<rfloor>) / 2 else 0)
         + (if cell = (0, nat ((\<lfloor>q\<rfloor> + 1) mod int s1)) then (q - of_int \<lfloor>q\<rfloor>) / 2 else 0)))\<rparr>)"
proof -
  have w: "\<forall>p \<in> set [(real s0 - 1 / 2, q)]. within_int32 p"
    using half_below_within[OF assms(4-6)] by simp
  have s: "(\<Sum>p\<leftarrow>[(real s0 - 1 / 2, q)]. bilinear_deposit (s0, s1) p cell) =
      (if cell = (s0 - 1, nat (\<lfloor>q\<rfloor> mod int s1)) then (1 - (q - of_int \<lfloor>q\<rfloor>)) / 2 else 0)
    + (if cell = (0, nat (\<lfloor>q\<rfloor> mod int s1)) then (1 - (q - of_int \<lfloor>q\<rfloor>)) / 2 else 0)
    + (if cell = (s0 - 1, nat ((\<lfloor>q\<rfloor> + 1) mod int s1)) then (q - of_int \<lfloor>q\<rfloor>) / 2 else 0)
    + (if cell = (0, nat ((\<lfloor>q\<rfloor> + 1) mod int s1)) then (q - of_int \<lfloor>q\<rfloor>) / 2 else 0)" for cell
    unfolding half_below_deposit[OF assms(1,2), symmetric] by simp
  show ?thesis
    unfolding superpose_deltas_value_within[OF assms(1-3) w] s ..
qed










text \<open>
  A point beyond the range of \<open>int32\<close>, on a grid of \<open>4 \<times> 4\<close> cells: the cast of its
  floor \<open>2^31\<close> is \<open>-2^31\<close>, so the offset \<open>x\<close> is \<open>2^32\<close> and not the fractional part 0,
  and the weights \<open>1 - 2^32\<close> and \<open>2^32\<close>, which still sum to 1, go to two cells.
\<close>

lemma beyond_row: "point_row (2147483648, 0) = - 2147483648"
  by (simp add: point_row_def astype_int32_floor)

lemma beyond_col: "point_col (2147483648, 0) = 0"
  by (simp add: point_col_def astype_int32_floor)

lemma beyond_x: "off_row (2147483648, 0) = 4294967296"
  unfolding off_row_def beyond_row by simp

lemma beyond_y: "off_col (2147483648, 0) = 0"
  unfolding off_col_def beyond_col by simp

lemma beyond_frac: "frac_row (2147483648, 0) = 0 \<and> frac_col (2147483648, 0) = 0"
  by (simp add: frac_row_def frac_col_def)

lemma beyond_w: "\<not> within_int32 (2147483648, 0)"
  by (simp add: within_int32_def)

lemma beyond_i1: "np_mod (- 2147483648) 4 = 0"
  by (simp add: np_mod_def)

lemma beyond_i2: "np_mod (int32 (- 2147483648 + 1)) 4 = 1"
  by (simp add: np_mod_def int32_def)

lemma beyond_j: "np_mod 0 4 = 0 \<and> np_mod (int32 (0 + 1)) 4 = 1"
  by (simp add: np_mod_def int32_def)

lemma beyond_deposit:
  "point_deposit (4, 4) (2147483648, 0) =
      (\<lambda>cell. (if cell = (0, 0) then - 4294967295 else 0) + (if cell = (1, 0) then 4294967296 else 0))"
  apply (rule ext)
  unfolding point_deposit_def Let_def beyond_row beyond_col beyond_x beyond_y fst_conv snd_conv
    beyond_i1 beyond_i2 beyond_j[THEN conjunct1] beyond_j[THEN conjunct2]
  apply (simp cong: if_cong)
  done


lemma point_beyond_int32:
  "superpose_deltas [(2147483648, 0)] (zeros (4, 4)) (None :: unit option) None =
     Inr \<lparr>shape = (4, 4),
          cells = (\<lambda>cell. (if cell = (0, 0) then - 4294967295 else 0)
                      + (if cell = (1, 0) then 4294967296 else 0))\<rparr>"
proof -
  have "superpose_deltas [(2147483648, 0)] (zeros (4, 4)) (None :: unit option) None =
     Inr ((zeros (4, 4))\<lparr>cells := (\<lambda>cell. cells (zeros (4, 4)) cell
            + (\<Sum>p\<leftarrow>[(2147483648, 0)]. point_deposit (4, 4) p cell))\<rparr>)"
    by (rule superpose_deltas_value) (simp_all add: zeros_def)
  then show ?thesis
    by (simp add: zeros_def beyond_deposit)
qed

text \<open>
  Claim C2 (periodic wraparound). On a grid with at least one cell, every row index that
  \<open>superpose_deltas\<close> computes lies in \<open>0, ..., shape[0] - 1\<close> and every column index in
  \<open>0, ..., shape[1] - 1\<close>, so the call never raises \<open>IndexError\<close>; without weights it
  returns the array with, added to each cell, the weights of the points for which the
  code addresses that cell. For points whose floors are representable in \<open>int32\<close> these
  are the bilinear weights of the points whose enclosing cells, taken modulo the grid
  extent, coincide with the cell. In particular a point with \<open>row = shape[0] - 0.5\<close> puts
  half of its weight into row \<open>shape[0] - 1\<close> and half into row \<open>0\<close>, and nothing
  elsewhere.
\<close>

theorem superpose_deltas_periodic_wraparound:
  "0 < s0 \<and> 0 < s1 \<and> shape array = (s0, s1) \<longrightarrow>
     (\<forall>row \<in> set (sd_i (s0, s1) positions). \<forall>i \<in> set row. 0 \<le> i \<and> i < int s0) \<and>
     (\<forall>row \<in> set (sd_j (s0, s1) positions). \<forall>j \<in> set row. 0 \<le> j \<and> j < int s1) \<and>
     superpose_deltas positions array slice_index weights \<noteq> Inl IndexError \<and>
     superpose_deltas positions array (None :: 'si option) None =
       Inr (array\<lparr>cells := (\<lambda>cell. cells array cell
              + (\<Sum>p\<leftarrow>positions. point_deposit (s0, s1) p cell))\<rparr>) \<and>
     ((\<forall>p \<in> set positions. within_int32 p) \<longrightarrow>
        superpose_deltas positions array (None :: 'si option) None =
          Inr (array\<lparr>cells := (\<lambda>cell. cells array cell
                 + (\<Sum>p\<leftarrow>positions. bilinear_deposit (s0, s1) p cell))\<rparr>)) \<and>
     (int s0 < 2 ^ 31 \<and> - (2 ^ 31) \<le> \<lfloor>q\<rfloor> \<and> \<lfloor>q\<rfloor> + 1 < 2 ^ 31 \<longrightarrow>
        superpose_deltas [(real s0 - 1 / 2, q)] array (None :: 'si option) None =
          Inr (array\<lparr>cells := (\<lambda>cell. cells array cell
             + ((if cell = (s0 - 1, nat (\<lfloor>q\<rfloor> mod int s1)) then (1 - (q - of_int \<lfloor>q\<rfloor>)) / 2 else 0)
              + (if cell = (0, nat (\<lfloor>q\<rfloor> mod int s1)) then (1 - (q - of_int \<lfloor>q\<rfloor>)) / 2 else 0)
              + (if cell = (s0 - 1, nat ((\<lfloor>q\<rfloor> + 1) mod int s1)) then (q - of_int \<lfloor>q\<rfloor>) / 2 else 0)
              + (if cell = (0, nat ((\<lfloor>q\<rfloor> + 1) mod int s1)) then (q - of_int \<lfloor>q\<rfloor>) / 2 else 0)))\<rparr>))"
proof (intro impI)
  assume a: "0 < s0 \<and> 0 < s1 \<and> shape array = (s0, s1)"
  then have p: "0 < s0" "0 < s1" "shape array = (s0, s1)" by simp_all
  have ri: "\<forall>row \<in> set (sd_i (s0, s1) positions). \<forall>i \<in> set row. 0 \<le> i \<and> i < int s0"
    unfolding sd_i_map using np_mod_range[OF p(1)] by auto
  have rj: "\<forall>row \<in> set (sd_j (s0, s1) positions). \<forall>j \<in> set row. 0 \<le> j \<and> j < int s1"
    unfolding sd_j_map using np_mod_range[OF p(2)] by auto
  have ne: "superpose_deltas positions array slice_index weights \<noteq> Inl IndexError"
    by (rule superpose_deltas_no_index_error[OF p])
  have u: "superpose_deltas positions array (None :: 'si option) None =
       Inr (array\<lparr>cells := (\<lambda>cell. cells array cell
              + (\<Sum>p\<leftarrow>positions. point_deposit (s0, s1) p cell))\<rparr>)"
    by (rule superpose_deltas_value[OF p])
  have v: "(\<forall>p \<in> set positions. within_int32 p) \<longrightarrow>
        superpose_deltas positions array (None :: 'si option) None =
          Inr (array\<lparr>cells := (\<lambda>cell. cells array cell
                 + (\<Sum>p\<leftarrow>positions. bilinear_deposit (s0, s1) p cell))\<rparr>)"
    using superpose_deltas_value_within[OF p] by blast
  have h: "int s0 < 2 ^ 31 \<and> - (2 ^ 31) \<le> \<lfloor>q\<rfloor> \<and> \<lfloor>q\<rfloor> + 1 < 2 ^ 31 \<longrightarrow>
        superpose_deltas [(real s0 - 1 / 2, q)] array (None :: 'si option) None =
          Inr (array\<lparr>cells := (\<lambda>cell. cells array cell
             + ((if cell = (s0 - 1, nat (\<lfloor>q\<rfloor> mod int s1)) then (1 - (q - of_int \<lfloor>q\<rfloor>)) / 2 else 0)
              + (if cell = (0, nat (\<lfloor>q\<rfloor> mod int s1)) then (1 - (q - of_int \<lfloor>q\<rfloor>)) / 2 else 0)
              + (if cell = (s0 - 1, nat ((\<lfloor>q\<rfloor> + 1) mod int s1)) then (q - of_int \<lfloor>q\<rfloor>) / 2 else 0)
              + (if cell = (0, nat ((\<lfloor>q\<rfloor> + 1) mod int s1)) then (q - of_int \<lfloor>q\<rfloor>) / 2 else 0)))\<rparr>)"
    using superpose_deltas_half_below[OF p] by blast
  from ri rj ne u v h
  show "(\<forall>row \<in> set (sd_i (s0, s1) positions). \<forall>i \<in> set row. 0 \<le> i \<and> i < int s0) \<and>
     (\<forall>row \<in> set (sd_j (s0, s1) positions). \<forall>j \<in> set row. 0 \<le> j \<and> j < int s1) \<and>
     superpose_deltas positions array slice_index weights \<noteq> Inl IndexError \<and>
     superpose_deltas positions array (None :: 'si option) None =
       Inr (array\<lparr>cells := (\<lambda>cell. cells array cell
              + (\<Sum>p\<leftarrow>positions. point_deposit (s0, s1) p cell))\<rparr>) \<and>
     ((\<forall>p \<in> set positions. within_int32 p) \<longrightarrow>
        superpose_deltas positions array (None :: 'si option) None =
          Inr (array\<lparr>cells := (\<lambda>cell. cells array cell
                 + (\<Sum>p\<leftarrow>positions. bilinear_deposit (s0, s1) p cell))\<rparr>)) \<and>
     (int s0 < 2 ^ 31 \<and> - (2 ^ 31) \<le> \<lfloor>q\<rfloor> \<and> \<lfloor>q\<rfloor> + 1 < 2 ^ 31 \<longrightarrow>
        superpose_deltas [(real s0 - 1 / 2, q)] array (None :: 'si option) None =
          Inr (array\<lparr>cells := (\<lambda>cell. cells array cell
             + ((if cell = (s0 - 1, nat (\<lfloor>q\<rfloor> mod int s1)) then (1 - (q - of_int \<lfloor>q\<rfloor>)) / 2 else 0)
              + (if cell = (0, nat (\<lfloor>q\<rfloor> mod int s1)) then (1 - (q - of_int \<lfloor>q\<rfloor>)) / 2 else 0)
              + (if cell = (s0 - 1, nat ((\<lfloor>q\<rfloor> + 1) mod int s1)) then (q - of_int \<lfloor>q\<rfloor>) / 2 else 0)
              + (if cell = (0, nat ((\<lfloor>q\<rfloor> + 1) mod int s1)) then (q - of_int \<lfloor>q\<rfloor>) / 2 else 0)))\<rparr>))"
    by blast
qed

lemma wrap_point_within: "\<forall>p \<in> set [(7 / 2, 5 / 2 :: real)]. within_int32 p"
  by (simp add: within_int32_def)

lemma wrap_point_indices:
  "sd_i (4, 3) [(7 / 2, 5 / 2)] = [[3], [0], [3], [0]] \<and>
   sd_j (4, 3) [(7 / 2, 5 / 2)] = [[2], [2], [0], [0]]"
  by (simp add: sd_i_map sd_j_map point_row_def point_col_def astype_int32_floor int32_def
      np_mod_def)

theorem superpose_deltas_periodic_wraparound_witness:
  "(0::nat) < 4 \<and> (0::nat) < 3 \<and> shape (zeros (4, 3)) = (4, 3) \<and>
   within_int32 (7 / 2, 5 / 2) \<and>
   int 4 < 2 ^ 31 \<and> - (2 ^ 31) \<le> \<lfloor>5 / 2 :: real\<rfloor> \<and> \<lfloor>5 / 2 :: real\<rfloor> + 1 < 2 ^ 31 \<and>
   sd_i (4, 3) [(7 / 2, 5 / 2)] = [[3], [0], [3], [0]] \<and>
   sd_j (4, 3) [(7 / 2, 5 / 2)] = [[2], [2], [0], [0]] \<and>
   superpose_deltas [(7 / 2, 5 / 2)] (zeros (4, 3)) (None :: unit option) None \<noteq> Inl IndexError \<and>
   superpose_deltas [(7 / 2, 5 / 2)] (zeros (4, 3)) (None :: unit option) None =
     Inr \<lparr>shape = (4, 3),
          cells = (\<lambda>cell. (if cell = (3, 2) then 1 / 4 else 0) + (if cell = (0, 2) then 1 / 4 else 0)
                     + (if cell = (3, 0) then 1 / 4 else 0) + (if cell = (0, 0) then 1 / 4 else 0))\<rparr>"
proof -
  note t = superpose_deltas_periodic_wraparound
    [of 4 3 "zeros (4, 3)" "[(7 / 2, 5 / 2)]" "None :: unit option" None "5 / 2", where 'si = unit]
  have hyp: "0 < (4::nat) \<and> 0 < (3::nat) \<and> shape (zeros (4, 3)) = (4, 3)"
    by (simp add: zeros_def)
  have q: "int 4 < 2 ^ 31 \<and> - (2 ^ 31) \<le> \<lfloor>5 / 2 :: real\<rfloor> \<and> \<lfloor>5 / 2 :: real\<rfloor> + 1 < 2 ^ 31"
    by simp
  from t hyp have ne: "superpose_deltas [(7 / 2, 5 / 2)] (zeros (4, 3)) (None :: unit option) None \<noteq> Inl IndexError"
    by blast
  from t hyp q have "superpose_deltas [(real 4 - 1 / 2, 5 / 2)] (zeros (4, 3)) (None :: unit option) None =
          Inr ((zeros (4, 3))\<lparr>cells := (\<lambda>cell. cells (zeros (4, 3)) cell
             + ((if cell = (4 - 1, nat (\<lfloor>5 / 2 :: real\<rfloor> mod int 3)) then (1 - (5 / 2 - of_int \<lfloor>5 / 2 :: real\<rfloor>)) / 2 else 0)
              + (if cell = (0, nat (\<lfloor>5 / 2 :: real\<rfloor> mod int 3)) then (1 - (5 / 2 - of_int \<lfloor>5 / 2 :: real\<rfloor>)) / 2 else 0)
              + (if cell = (4 - 1, nat ((\<lfloor>5 / 2 :: real\<rfloor> + 1) mod int 3)) then (5 / 2 - of_int \<lfloor>5 / 2 :: real\<rfloor>) / 2 else 0)
              + (if cell = (0, nat ((\<lfloor>5 / 2 :: real\<rfloor> + 1) mod int 3)) then (5 / 2 - of_int \<lfloor>5 / 2 :: real\<rfloor>) / 2 else 0)))\<rparr>)"
    by blast
  then have val: "superpose_deltas [(7 / 2, 5 / 2)] (zeros (4, 3)) (None :: unit option) None =
     Inr \<lparr>shape = (4, 3),
          cells = (\<lambda>cell. (if cell = (3, 2) then 1 / 4 else 0) + (if cell = (0, 2) then 1 / 4 else 0)
                     + (if cell = (3, 0) then 1 / 4 else 0) + (if cell = (0, 0) then 1 / 4 else 0))\<rparr>"
    by (simp add: zeros_def cong: if_cong)
  from hyp q ne val wrap_point_within wrap_point_indices show ?thesis by simp
qed







section \<open>Properties of the slice thicknesses and the sliced atoms\<close>

lemma isclose_refl: "isclose t t"
  by (simp add: isclose_def)

lemma sum_list_replicate_real: "sum_list (replicate n (x::real)) = real n * x"
  by (induction n) (simp_all add: algebra_simps)

lemma validate_scalar_returns:
  assumes "0 < s" "0 \<le> t" "num_slices = None \<or> num_slices = Some \<lceil>t / s\<rceil>"
  shows "validate_slice_thickness (Scalar s) (Some t) num_slices
           = Inr (replicate (nat \<lceil>t / s\<rceil>) (t / of_int \<lceil>t / s\<rceil>))"
    and "sum_list (replicate (nat \<lceil>t / s\<rceil>) (t / of_int \<lceil>t / s\<rceil>)) = t"
proof -
  let ?n = "\<lceil>t / s\<rceil>"
  have "0 \<le> t / s" using assms(1,2) by simp
  then have "\<lceil>0::real\<rceil> \<le> ?n" by (rule ceiling_mono)
  then have n0: "0 \<le> ?n" by simp
  show sum: "sum_list (replicate (nat ?n) (t / of_int ?n)) = t"
  proof (cases "?n = 0")
    case True
    have "t / s \<le> of_int ?n" by (rule le_of_int_ceiling)
    with True have "t / s \<le> 0" by simp
    with assms(1,2) have "t = 0" by (simp add: divide_le_0_iff)
    with True show ?thesis by simp
  next
    case False
    define n where "n = ?n"
    from False n0 have npos: "0 < n" unfolding n_def by linarith
    then have "real (nat n) = of_int n" "(of_int n :: real) \<noteq> 0" by simp_all
    then have "sum_list (replicate (nat n) (t / of_int n)) = t"
      by (simp add: sum_list_replicate_real)
    then show ?thesis unfolding n_def .
  qed
  have len: "int (length (replicate (nat ?n) (t / of_int ?n))) = ?n" using n0 by simp
  show "validate_slice_thickness (Scalar s) (Some t) num_slices
           = Inr (replicate (nat ?n) (t / of_int ?n))"
    using assms(1,3) sum len
    by (auto simp: validate_slice_thickness_def Let_def isclose_refl)
qed

lemma validate_returns_close:
  assumes "validate_slice_thickness st (Some t) num_slices = Inr ts"
  shows "isclose (sum_list ts) t"
  using assms
  by (auto simp: validate_slice_thickness_def Let_def split: thickness_arg.splits sum.splits if_splits option.splits)

lemma validate_values_inconsistent:
  assumes "\<not> isclose (sum_list ts) t"
  shows "validate_slice_thickness (Values ts) (Some t) num_slices = Inl RuntimeError"
  using assms by (simp add: validate_slice_thickness_def)

text \<open>
  Claim C4 (slice-thickness invariant of \<open>validate_slice_thickness\<close>). For a positive
  scalar step and a total thickness \<open>t \<ge> 0\<close> (and no slice count, or the matching one)
  the call returns \<open>ceil(t / step)\<close> slices of equal thickness whose sum is \<open>t\<close>; whatever
  the arguments, a returned tuple has a sum that \<open>np.isclose\<close> accepts against the given
  thickness; and an explicit tuple whose sum is not close to the given thickness makes the
  call raise \<open>RuntimeError\<close>. Floats are exact reals here.
\<close>

theorem validate_slice_thickness_invariant:
  "(0 < s \<and> 0 \<le> t \<and> (num_slices = None \<or> num_slices = Some \<lceil>t / s\<rceil>) \<longrightarrow>
      (\<exists>ts. validate_slice_thickness (Scalar s) (Some t) num_slices = Inr ts \<and>
            ts = replicate (nat \<lceil>t / s\<rceil>) (t / of_int \<lceil>t / s\<rceil>) \<and>
            sum_list ts = t \<and> isclose (sum_list ts) t)) \<and>
   (validate_slice_thickness st (Some t) num_slices = Inr ts' \<longrightarrow> isclose (sum_list ts') t) \<and>
   (\<not> isclose (sum_list vs) t \<longrightarrow>
      validate_slice_thickness (Values vs) (Some t) num_slices = Inl RuntimeError)"
proof (intro conjI impI)
  assume "0 < s \<and> 0 \<le> t \<and> (num_slices = None \<or> num_slices = Some \<lceil>t / s\<rceil>)"
  then have a: "0 < s" "0 \<le> t" "num_slices = None \<or> num_slices = Some \<lceil>t / s\<rceil>" by simp_all
  from validate_scalar_returns[OF a]
  show "\<exists>ts. validate_slice_thickness (Scalar s) (Some t) num_slices = Inr ts \<and>
            ts = replicate (nat \<lceil>t / s\<rceil>) (t / of_int \<lceil>t / s\<rceil>) \<and>
            sum_list ts = t \<and> isclose (sum_list ts) t"
    by (simp add: isclose_refl)
next
  assume "validate_slice_thickness st (Some t) num_slices = Inr ts'"
  then show "isclose (sum_list ts') t" by (rule validate_returns_close)
next
  assume "\<not> isclose (sum_list vs) t"
  then show "validate_slice_thickness (Values vs) (Some t) num_slices = Inl RuntimeError"
    by (rule validate_values_inconsistent)
qed

lemma ceiling_5_2: "\<lceil>5 / 2 :: real\<rceil> = 3"
  by (simp add: ceiling_eq_iff)

theorem validate_slice_thickness_invariant_witness:
  "(0::real) < 2 \<and> (0::real) \<le> 5 \<and>
   validate_slice_thickness (Scalar 2) (Some 5) None = Inr [5 / 3, 5 / 3, 5 / 3] \<and>
   sum_list [5 / 3, 5 / 3, 5 / 3 :: real] = 5 \<and>
   isclose (sum_list [5 / 3, 5 / 3, 5 / 3]) 5 \<and>
   \<not> isclose (sum_list [1, 1]) 5 \<and>
   validate_slice_thickness (Values [1, 1]) (Some 5) None = Inl RuntimeError"
  using validate_slice_thickness_invariant
    [of 2 5 None "Scalar 2" "[5 / 3, 5 / 3, 5 / 3]" "[1, 1]"]
  by (simp add: ceiling_5_2 isclose_def numeral_3_eq_3)

lemma length_cumsum_from: "length (cumsum_from acc xs) = length xs"
  by (induction xs arbitrary: acc) simp_all

lemma cumsum_from_nth:
  "i < length xs \<Longrightarrow> cumsum_from acc xs ! i = acc + sum_list (take (Suc i) xs)"
proof (induction xs arbitrary: acc i)
  case Nil
  then show ?case by simp
next
  case (Cons x xs)
  show ?case
  proof (cases i)
    case 0
    then show ?thesis by simp
  next
    case (Suc j)
    with Cons.prems have "j < length xs" by simp
    from Cons.IH[OF this, of "acc + x"] Suc show ?thesis by (simp add: add.assoc)
  qed
qed

lemma length_slice_limits: "length (slice_limits_of ts) = length ts"
  by (simp add: slice_limits_of_def Let_def cumsum_def length_cumsum_from)

lemma slice_limits_nth:
  assumes "i < length ts"
  shows "slice_limits_of ts ! i = (sum_list (take i ts), sum_list (take (Suc i) ts))"
proof -
  have a: "cumsum (0 # ts) ! i = sum_list (take i ts)"
  proof (cases i)
    case 0
    then show ?thesis by (simp add: cumsum_def)
  next
    case (Suc j)
    with assms have "j < length ts" by simp
    then show ?thesis using Suc by (simp add: cumsum_def cumsum_from_nth)
  qed
  have b: "cumsum (0 # ts) ! (i + 1) = sum_list (take (Suc i) ts)"
    using assms by (simp add: cumsum_def cumsum_from_nth)
  show ?thesis
    using assms a b by (simp add: slice_limits_of_def Let_def cumsum_def length_cumsum_from)
qed

lemma py_getitem_slice_limits:
  assumes "0 \<le> i" "i < int (length ts)"
  shows "py_getitem (slice_limits_of ts) i
           = Inr (sum_list (take (nat i) ts), sum_list (take (Suc (nat i)) ts))"
  using assms by (simp add: py_getitem_def Let_def length_slice_limits slice_limits_nth)

lemma py_getitem_slice_limits_end:
  "py_getitem (slice_limits_of ts) (int (length ts)) = Inl IndexError"
  by (simp add: py_getitem_def Let_def length_slice_limits)

lemma select_atoms_positions:
  "at_positions (select_atoms a sel) = map fst (filter snd (zip (at_positions a) sel))"
  by (simp add: select_atoms_def)

lemma set_select_map:
  "set (map fst (filter snd (zip xs (map P xs)))) = {x \<in> set xs. P x}"
  by (induction xs) auto

lemma filter_select_map:
  "map fst (filter snd (zip xs (map P xs))) = filter P xs"
  by (induction xs) auto

text \<open>the claim holds whenever the window ends before the final slice\<close>
lemma sa_window_inner:
  assumes "0 \<le> first_slice" "first_slice < int (length (sa_slice_thickness self))"
      and "0 \<le> last_slice" "last_slice < int (length (sa_slice_thickness self))"
  shows "\<exists>r. sa_get_atoms_in_slices self first_slice (Some last_slice) None = Inr r \<and>
     at_positions r = filter (\<lambda>p.
          sum_list (take (nat first_slice) (sa_slice_thickness self)) - sa_z_padding self \<le> pos_z p \<and>
          pos_z p < sum_list (take (nat last_slice) (sa_slice_thickness self)) + sa_z_padding self)
        (at_positions (sa_atoms self)) \<and>
     cell_zz (at_cell r) = sum_list (take (nat last_slice) (sa_slice_thickness self))
                         - sum_list (take (nat first_slice) (sa_slice_thickness self))"
  using assms
  by (simp add: sa_get_atoms_in_slices_def Let_def py_getitem_slice_limits select_atoms_def
      filter_select_map cell_zz_def cell_of_lengths_def)

lemma py_getitem_error: "py_getitem xs i = Inl e \<Longrightarrow> e = IndexError"
  by (simp add: py_getitem_def Let_def split: if_splits)

text \<open>a query that includes the final slice raises\<close>
lemma sa_window_last:
  "sa_get_atoms_in_slices self first_slice (Some (int (length (sa_slice_thickness self)))) z
     = Inl IndexError"
  by (auto simp: sa_get_atoms_in_slices_def Let_def py_getitem_slice_limits_end
      split: sum.splits dest: py_getitem_error)

lemma two_slices_init:
  "sliced_atoms_init two_atoms (Thickness (Values [1, 1])) 0 0 = Inr two_slices"
  by (simp add: sliced_atoms_init_def abstract_sliced_atoms_init_def is_cell_orthogonal_def
      two_atoms_def two_slices_def cell_of_lengths_def cell_diag_def cell_zz_def
      validate_slice_thickness_def isclose_def)

lemma slice_limits_two: "slice_limits_of [1, 1] = [(0, 1), (1, 2)]"
  by (simp add: slice_limits_of_def cumsum_def Let_def upt_rec)

lemma two_slices_first:
  "sa_get_atoms_in_slices two_slices 0 (Some 1) None =
     Inr \<lparr>at_positions = [(0, 0, 1 / 2)], at_numbers = [14],
          at_cell = ((10, 0, 0), (0, 10, 0), (0, 0, 1))\<rparr>"
  by (simp add: sa_get_atoms_in_slices_def
      Let_def slice_limits_two py_getitem_def two_slices_def two_atoms_def select_atoms_def
      pos_z_def cell_of_lengths_def cell_diag_def)

lemma two_slices_last:
  "sa_get_atoms_in_slices two_slices 1 (Some 2) z = Inl IndexError"
  by (simp add: sa_get_atoms_in_slices_def Let_def slice_limits_two py_getitem_def two_slices_def)

text \<open>
  Claim C6 (windowed slice selection), at a failing input. Two slices of thickness 1 over
  a cell of depth 2, atoms at depths 0.5 and 1.5, no padding. The query of the first
  slice returns the atom at 0.5 and a cell of depth 1, as the claim says. The query
  \<open>[1, 2)\<close> of the last slice reads \<open>slice_limits[2]\<close>, one past the end of the list of
  limits, and raises \<open>IndexError\<close>; so do \<open>sliced[1]\<close> and \<open>sliced[:]\<close>, for which
  \<open>unpack_item\<close> yields \<open>last_slice = num_slices\<close>.
\<close>

theorem sliced_atoms_last_slice_raises:
  "sliced_atoms_init two_atoms (Thickness (Values [1, 1])) 0 0 = Inr two_slices \<and>
   sa_get_atoms_in_slices two_slices 0 (Some 1) None =
     Inr \<lparr>at_positions = [(0, 0, 1 / 2)], at_numbers = [14],
          at_cell = ((10, 0, 0), (0, 10, 0), (0, 0, 1))\<rparr> \<and>
   sa_get_atoms_in_slices two_slices 1 (Some 2) None = Inl IndexError \<and>
   sa_getitem two_slices (IntItem 1) = Inl IndexError \<and>
   sa_getitem two_slices (SliceItem None None) = Inl IndexError"
proof (intro conjI)
  show "sliced_atoms_init two_atoms (Thickness (Values [1, 1])) 0 0 = Inr two_slices"
    by (rule two_slices_init)
  show "sa_get_atoms_in_slices two_slices 0 (Some 1) None =
     Inr \<lparr>at_positions = [(0, 0, 1 / 2)], at_numbers = [14],
          at_cell = ((10, 0, 0), (0, 10, 0), (0, 0, 1))\<rparr>"
    by (rule two_slices_first)
  show "sa_get_atoms_in_slices two_slices 1 (Some 2) None = Inl IndexError"
    by (rule two_slices_last)
  have len: "sa_slice_thickness two_slices = [1, 1]" by (simp add: two_slices_def)
  show "sa_getitem two_slices (IntItem 1) = Inl IndexError"
    by (simp add: sa_getitem_def unpack_item_def len two_slices_last)
  show "sa_getitem two_slices (SliceItem None None) = Inl IndexError"
    using sa_window_last[of two_slices 0 None]
    by (simp add: sa_getitem_def unpack_item_def len)
qed


lemma length_label_to_index: "length (label_to_index labels m) = nat (m + 1)"
  by (simp add: label_to_index_def)

lemma label_to_index_nth:
  "l < nat (m + 1) \<Longrightarrow>
   label_to_index labels m ! l = filter (\<lambda>i. labels ! i = l) [0..<length labels]"
  by (simp add: label_to_index_def)

lemma label_to_index_mem:
  "l < nat (m + 1) \<Longrightarrow>
   k \<in> set (label_to_index labels m ! l) \<longleftrightarrow> k < length labels \<and> labels ! k = l"
  by (auto simp: label_to_index_nth)

lemma label_to_index_distinct:
  "l < nat (m + 1) \<Longrightarrow> distinct (label_to_index labels m ! l)"
  by (simp add: label_to_index_nth)

lemma label_to_index_disjoint:
  assumes "i < nat (m + 1)" "j < nat (m + 1)" "i \<noteq> j"
  shows "set (label_to_index labels m ! i) \<inter> set (label_to_index labels m ! j) = {}"
  using assms by (auto simp: label_to_index_mem)

text \<open>the partial sums of non-negative numbers increase\<close>
lemma cumsum_from_bounds:
  "\<forall>t \<in> set ts. 0 \<le> t \<Longrightarrow> b \<in> set (cumsum_from acc ts) \<Longrightarrow> acc \<le> b \<and> b \<le> acc + sum_list ts"
proof (induction ts arbitrary: acc)
  case Nil
  then show ?case by simp
next
  case (Cons t ts)
  from Cons.prems(1) have t: "0 \<le> t" and ts: "\<forall>t \<in> set ts. 0 \<le> t" by simp_all
  have s: "0 \<le> sum_list ts" using ts by (simp add: sum_list_nonneg)
  from Cons.prems(2) consider "b = acc + t" | "b \<in> set (cumsum_from (acc + t) ts)" by auto
  then show ?case
  proof cases
    case 1
    then show ?thesis using t s by simp
  next
    case 2
    from Cons.IH[OF ts 2] show ?thesis using t by simp
  qed
qed

lemma sorted_cumsum_from:
  "\<forall>t \<in> set ts. 0 \<le> t \<Longrightarrow> sorted (cumsum_from acc ts)"
proof (induction ts arbitrary: acc)
  case Nil
  then show ?case by simp
next
  case (Cons t ts)
  from Cons.prems have t: "0 \<le> t" and ts: "\<forall>t \<in> set ts. 0 \<le> t" by simp_all
  have "\<forall>b \<in> set (cumsum_from (acc + t) ts). acc + t \<le> b"
    using cumsum_from_bounds[OF ts] by blast
  with Cons.IH[OF ts] show ?case by simp
qed

lemma cumsum_from_last:
  "ts \<noteq> [] \<Longrightarrow> acc + sum_list ts \<in> set (cumsum_from acc ts)"
proof (induction ts arbitrary: acc)
  case Nil
  then show ?case by simp
next
  case (Cons t ts)
  show ?case
  proof (cases "ts = []")
    case True
    then show ?thesis by simp
  next
    case False
    from Cons.IH[OF False, of "acc + t"] show ?thesis by (simp add: add.assoc)
  qed
qed

text \<open>the label of a depth is below the number of slices exactly when the depth is below the total\<close>
lemma digitize1_cumsum:
  assumes "\<forall>t \<in> set ts. 0 \<le> t" "ts \<noteq> []"
  shows "digitize1 (cumsum ts) z < length ts \<longleftrightarrow> z < sum_list ts"
proof -
  have srt: "sorted (cumsum ts)" unfolding cumsum_def by (rule sorted_cumsum_from[OF assms(1)])
  have len: "length (cumsum ts) = length ts" by (simp add: cumsum_def length_cumsum_from)
  have d: "digitize1 (cumsum ts) z = length (filter (\<lambda>b. b \<le> z) (cumsum ts))"
    using srt by (simp add: digitize1_def)
  have last: "sum_list ts \<in> set (cumsum ts)"
    using cumsum_from_last[OF assms(2), of 0] by (simp add: cumsum_def)
  have ub: "\<forall>b \<in> set (cumsum ts). b \<le> sum_list ts"
    using cumsum_from_bounds[OF assms(1), of _ 0] by (simp add: cumsum_def)
  show ?thesis
  proof
    assume "digitize1 (cumsum ts) z < length ts"
    then have "length (filter (\<lambda>b. b \<le> z) (cumsum ts)) < length (cumsum ts)"
      by (simp add: d len)
    then have "filter (\<lambda>b. b \<le> z) (cumsum ts) \<noteq> cumsum ts" by auto
    then obtain b where "b \<in> set (cumsum ts)" "\<not> b \<le> z"
      by (auto simp: filter_id_conv)
    with ub show "z < sum_list ts" by force
  next
    assume "z < sum_list ts"
    with last have "\<exists>b \<in> set (cumsum ts). \<not> b \<le> z" by force
    then have "length (filter (\<lambda>b. b \<le> z) (cumsum ts)) < length (cumsum ts)"
      by (auto intro: length_filter_less)
    then show "digitize1 (cumsum ts) z < length ts" by (simp add: d len)
  qed
qed

lemma slice_indexed_init_cases:
  assumes "slice_indexed_atoms_init a st = Inr s"
  shows "sia_atoms s = a \<and>
     abstract_sliced_atoms_init a st = Inr (sia_slice_thickness s) \<and>
     (sorted (cumsum (sia_slice_thickness s)) \<or> sorted (rev (cumsum (sia_slice_thickness s)))) \<and>
     sia_slice_index s =
       label_to_index (map (digitize1 (cumsum (sia_slice_thickness s))) (map pos_z (at_positions a)))
         (int (length (sia_slice_thickness s)) - 1)"
  using assms
  by (auto simp: slice_indexed_atoms_init_def digitize_def split: sum.splits if_splits)

text \<open>
  Claim C7 (atom partition of the slice-indexed variant), as amended. When the
  construction succeeds there is one index list for each slice; each list is free of
  repetitions and holds atom indices only; the lists are pairwise disjoint, atom \<open>k\<close>
  being in list \<open>i\<close> exactly when \<open>np.digitize\<close> labels its depth \<open>i\<close>. For non-negative
  slice thicknesses (at least one slice) an atom whose depth is below the sum of the
  thicknesses is in exactly one list, and an atom at or above that depth, whose label is
  \<open>num_slices > max_label\<close>, is in none.
\<close>

theorem slice_indexed_atoms_partition:
  "slice_indexed_atoms_init a st = Inr s \<longrightarrow>
     length (sia_slice_index s) = length (sia_slice_thickness s) \<and>
     (\<forall>i < length (sia_slice_index s).
        distinct (sia_slice_index s ! i) \<and>
        set (sia_slice_index s ! i) \<subseteq> {..<length (at_positions a)}) \<and>
     (\<forall>i < length (sia_slice_index s). \<forall>j < length (sia_slice_index s).
        i \<noteq> j \<longrightarrow> set (sia_slice_index s ! i) \<inter> set (sia_slice_index s ! j) = {}) \<and>
     (\<forall>k < length (at_positions a). \<forall>i < length (sia_slice_index s).
        k \<in> set (sia_slice_index s ! i) \<longleftrightarrow>
          digitize1 (cumsum (sia_slice_thickness s)) (pos_z (at_positions a ! k)) = i) \<and>
     ((\<forall>t \<in> set (sia_slice_thickness s). 0 \<le> t) \<and> sia_slice_thickness s \<noteq> [] \<longrightarrow>
        (\<forall>k < length (at_positions a).
           (pos_z (at_positions a ! k) < sum_list (sia_slice_thickness s) \<longrightarrow>
              (\<exists>!i. i < length (sia_slice_index s) \<and> k \<in> set (sia_slice_index s ! i))) \<and>
           (sum_list (sia_slice_thickness s) \<le> pos_z (at_positions a ! k) \<longrightarrow>
              (\<forall>i < length (sia_slice_index s). k \<notin> set (sia_slice_index s ! i)))))"
proof (intro impI)
  assume init: "slice_indexed_atoms_init a st = Inr s"
  let ?ts = "sia_slice_thickness s"
  let ?labels = "map (digitize1 (cumsum ?ts)) (map pos_z (at_positions a))"
  let ?m = "int (length ?ts) - 1"
  from slice_indexed_init_cases[OF init]
  have si: "sia_slice_index s = label_to_index ?labels ?m" by simp
  have n: "nat (?m + 1) = length ?ts" by simp
  have len: "length (sia_slice_index s) = length ?ts"
    by (simp add: si length_label_to_index)
  have mem: "k \<in> set (sia_slice_index s ! i) \<longleftrightarrow>
               k < length (at_positions a) \<and> digitize1 (cumsum ?ts) (pos_z (at_positions a ! k)) = i"
    if "i < length ?ts" for i k
    using that label_to_index_mem[of i ?m k ?labels] by (auto simp: si)
  have dist: "\<forall>i < length (sia_slice_index s).
        distinct (sia_slice_index s ! i) \<and>
        set (sia_slice_index s ! i) \<subseteq> {..<length (at_positions a)}"
  proof (intro allI impI)
    fix i assume "i < length (sia_slice_index s)"
    then have i: "i < length ?ts" by (simp only: len)
    then have "i < nat (?m + 1)" by simp
    from label_to_index_distinct[OF this, of ?labels]
    have "distinct (sia_slice_index s ! i)" by (simp only: si)
    moreover have "set (sia_slice_index s ! i) \<subseteq> {..<length (at_positions a)}"
      using mem[OF i] by auto
    ultimately show "distinct (sia_slice_index s ! i) \<and>
        set (sia_slice_index s ! i) \<subseteq> {..<length (at_positions a)}" by simp
  qed
  have disj: "\<forall>i < length (sia_slice_index s). \<forall>j < length (sia_slice_index s).
        i \<noteq> j \<longrightarrow> set (sia_slice_index s ! i) \<inter> set (sia_slice_index s ! j) = {}"
    using mem by (auto simp: len)
  have lab: "\<forall>k < length (at_positions a). \<forall>i < length (sia_slice_index s).
        k \<in> set (sia_slice_index s ! i) \<longleftrightarrow>
          digitize1 (cumsum ?ts) (pos_z (at_positions a ! k)) = i"
    using mem by (auto simp: len)
  have part: "(\<forall>t \<in> set ?ts. 0 \<le> t) \<and> ?ts \<noteq> [] \<longrightarrow>
        (\<forall>k < length (at_positions a).
           (pos_z (at_positions a ! k) < sum_list ?ts \<longrightarrow>
              (\<exists>!i. i < length (sia_slice_index s) \<and> k \<in> set (sia_slice_index s ! i))) \<and>
           (sum_list ?ts \<le> pos_z (at_positions a ! k) \<longrightarrow>
              (\<forall>i < length (sia_slice_index s). k \<notin> set (sia_slice_index s ! i))))"
  proof (intro impI allI conjI)
    fix k
    assume h: "(\<forall>t \<in> set ?ts. 0 \<le> t) \<and> ?ts \<noteq> []" and k: "k < length (at_positions a)"
    from h have d: "digitize1 (cumsum ?ts) z < length ?ts \<longleftrightarrow> z < sum_list ?ts" for z
      using digitize1_cumsum[of ?ts z] by blast
    {
      assume "pos_z (at_positions a ! k) < sum_list ?ts"
      with d have "digitize1 (cumsum ?ts) (pos_z (at_positions a ! k)) < length ?ts" by blast
      then show "\<exists>!i. i < length (sia_slice_index s) \<and> k \<in> set (sia_slice_index s ! i)"
        using mem k by (auto simp: len)
    }
    {
      fix i
      assume "sum_list ?ts \<le> pos_z (at_positions a ! k)" and i: "i < length (sia_slice_index s)"
      with d[of "pos_z (at_positions a ! k)"]
      have "\<not> digitize1 (cumsum ?ts) (pos_z (at_positions a ! k)) < length ?ts" by simp
      with i show "k \<notin> set (sia_slice_index s ! i)" using mem[of i k] by (auto simp: len)
    }
  qed
  show "length (sia_slice_index s) = length ?ts \<and>
     (\<forall>i < length (sia_slice_index s).
        distinct (sia_slice_index s ! i) \<and>
        set (sia_slice_index s ! i) \<subseteq> {..<length (at_positions a)}) \<and>
     (\<forall>i < length (sia_slice_index s). \<forall>j < length (sia_slice_index s).
        i \<noteq> j \<longrightarrow> set (sia_slice_index s ! i) \<inter> set (sia_slice_index s ! j) = {}) \<and>
     (\<forall>k < length (at_positions a). \<forall>i < length (sia_slice_index s).
        k \<in> set (sia_slice_index s ! i) \<longleftrightarrow>
          digitize1 (cumsum ?ts) (pos_z (at_positions a ! k)) = i) \<and>
     ((\<forall>t \<in> set ?ts. 0 \<le> t) \<and> ?ts \<noteq> [] \<longrightarrow>
        (\<forall>k < length (at_positions a).
           (pos_z (at_positions a ! k) < sum_list ?ts \<longrightarrow>
              (\<exists>!i. i < length (sia_slice_index s) \<and> k \<in> set (sia_slice_index s ! i))) \<and>
           (sum_list ?ts \<le> pos_z (at_positions a ! k) \<longrightarrow>
              (\<forall>i < length (sia_slice_index s). k \<notin> set (sia_slice_index s ! i)))))"
    using len dist disj lab part by blast
qed

lemma ceiling_2_1: "\<lceil>2 / 1 :: real\<rceil> = 2"
  by simp

lemma cumsum_two: "cumsum [1, 1] = [1, 2]"
  by (simp add: cumsum_def)

lemma three_atoms_init:
  "slice_indexed_atoms_init three_atoms (Thickness (Values [1, 1])) = Inr three_indexed"
  by (simp add: slice_indexed_atoms_init_def abstract_sliced_atoms_init_def
      is_cell_orthogonal_def three_atoms_def three_indexed_def cell_of_lengths_def cell_diag_def
      cell_zz_def validate_slice_thickness_def isclose_def cumsum_two digitize_def digitize1_def
      pos_z_def label_to_index_def upt_rec)

theorem slice_indexed_atoms_partition_witness:
  "slice_indexed_atoms_init three_atoms (Thickness (Values [1, 1])) = Inr three_indexed \<and>
   sia_slice_index three_indexed = [[0], [1]] \<and>
   length (sia_slice_index three_indexed) = length (sia_slice_thickness three_indexed) \<and>
   (0::nat) < length (at_positions three_atoms) \<and>
   pos_z (at_positions three_atoms ! 0) < sum_list (sia_slice_thickness three_indexed) \<and>
   (\<exists>!i. i < length (sia_slice_index three_indexed) \<and> 0 \<in> set (sia_slice_index three_indexed ! i)) \<and>
   sum_list (sia_slice_thickness three_indexed) \<le> pos_z (at_positions three_atoms ! 2) \<and>
   2 \<notin> set (sia_slice_index three_indexed ! 0) \<and>
   2 \<notin> set (sia_slice_index three_indexed ! 1) \<and>
   set (sia_slice_index three_indexed ! 0) \<inter> set (sia_slice_index three_indexed ! 1) = {}"
  using slice_indexed_atoms_partition[of three_atoms "Thickness (Values [1, 1])" three_indexed]
    three_atoms_init
  by (auto simp: three_indexed_def three_atoms_def pos_z_def less_Suc_eq numeral_2_eq_2)

text \<open>
  The claim as stated fails: the cell of \<open>three_atoms\<close> is orthogonal and the construction
  succeeds, but the atom on the upper face of the cell is in no slice.
\<close>

theorem slice_indexed_atoms_partition_counterexample:
  "\<not> (\<forall>a st s. is_cell_orthogonal a \<and> slice_indexed_atoms_init a st = Inr s \<longrightarrow>
        (\<forall>k < length (at_positions a).
           \<exists>!i. i < length (sia_slice_index s) \<and> k \<in> set (sia_slice_index s ! i)))"
proof
  assume "\<forall>a st s. is_cell_orthogonal a \<and> slice_indexed_atoms_init a st = Inr s \<longrightarrow>
        (\<forall>k < length (at_positions a).
           \<exists>!i. i < length (sia_slice_index s) \<and> k \<in> set (sia_slice_index s ! i))"
  moreover have "is_cell_orthogonal three_atoms"
    by (simp add: is_cell_orthogonal_def three_atoms_def cell_of_lengths_def cell_diag_def)
  moreover note three_atoms_init
  ultimately have "\<forall>k < length (at_positions three_atoms).
           \<exists>!i. i < length (sia_slice_index three_indexed) \<and> k \<in> set (sia_slice_index three_indexed ! i)"
    by blast
  moreover have "2 < length (at_positions three_atoms)" by (simp add: three_atoms_def)
  ultimately have "\<exists>!i. i < length (sia_slice_index three_indexed) \<and> 2 \<in> set (sia_slice_index three_indexed ! i)"
    by blast
  then obtain i where "i < length (sia_slice_index three_indexed)" "2 \<in> set (sia_slice_index three_indexed ! i)"
    by blast
  then show False
    by (auto simp: three_indexed_def less_Suc_eq numeral_2_eq_2)
qed

section \<open>Properties of indexing and squeezing\<close>

lemma shape_split: "ha_shape self = ensemble_shape self @ base_shape self"
  by (simp add: ensemble_shape_def base_shape_def py_but_last_def py_last_def)

lemma length_ensemble_shape:
  "length (ensemble_shape self) =
     (if ha_base_dims self = 0 then 0 else length (ha_shape self) - ha_base_dims self)"
  by (simp add: ensemble_shape_def py_but_last_def)

lemma index_shape_struct:
  "index_shape shp its = Inr r \<Longrightarrow>
   length its \<le> length shp \<and>
   (\<exists>pre. r = pre @ drop (length its) shp \<and> length pre \<le> length its)"
proof (induction shp its arbitrary: r rule: index_shape.induct)
  case (1 shp)
  then show ?case by simp
next
  case (2 it its)
  then show ?case by simp
next
  case (3 n shp i its)
  from "3.prems" obtain k where k: "np_index n i = Inr k" and rest: "index_shape shp its = Inr r"
    by (auto split: sum.splits)
  from "3.IH"[OF k rest] show ?case by auto
next
  case (4 n shp a b c its)
  from "4.prems" obtain ks r' where ks: "slice_indices n a b c = Inr ks"
    and rest: "index_shape shp its = Inr r'" and r: "r = length ks # r'"
    by (auto split: sum.splits)
  from "4.IH"[OF ks rest] obtain pre where "r' = pre @ drop (length its) shp" "length pre \<le> length its"
    and "length its \<le> length shp" by auto
  then have "r = (length ks # pre) @ drop (length (SliceIdx a b c # its)) (n # shp)"
    "length (length ks # pre) \<le> length (SliceIdx a b c # its)"
    by (simp_all add: r)
  then show ?case using \<open>length its \<le> length shp\<close> by (metis length_Cons Suc_le_mono)
next
  case (5 n shp its)
  then show ?case by simp
next
  case (6 n shp its)
  then show ?case by simp
qed

lemma index_shape_ensemble:
  assumes "index_shape (ens @ base) its = Inr r" "length its \<le> length ens"
  shows "\<exists>ens'. r = ens' @ base \<and> length ens' \<le> length ens"
proof -
  from index_shape_struct[OF assms(1)] obtain pre where
    r: "r = pre @ drop (length its) (ens @ base)" and p: "length pre \<le> length its" by blast
  have "drop (length its) (ens @ base) = drop (length its) ens @ base"
    using assms(2) by simp
  then have "r = (pre @ drop (length its) ens) @ base" by (simp add: r)
  moreover have "length (pre @ drop (length its) ens) \<le> length ens"
    using p assms(2) by simp
  ultimately show ?thesis by blast
qed

lemma get_items_cases:
  assumes "get_items iba self arg keep = Inr r"
  shows "\<exists>its shp md. length its \<le> length (ensemble_shape self) \<and>
           index_shape (ha_shape self) its = Inr shp \<and>
           r = self\<lparr>ha_shape := shp, ha_ensemble_axes_metadata := md\<rparr>"
proof -
  from assms obtain its where "index_items iba self its = Inr r"
    by (auto simp: get_items_def split: sum.splits)
  then have "length its \<le> length (ensemble_shape self) \<and>
     (\<exists>shp md. index_shape (ha_shape self) its = Inr shp \<and>
        r = self\<lparr>ha_shape := shp, ha_ensemble_axes_metadata := md\<rparr>)"
    unfolding index_items_def Let_def
    by (auto split: sum.splits if_splits)
  then show ?thesis by blast
qed

lemma py_last_append:
  assumes "b = 0 \<longrightarrow> ens = []" "b \<noteq> 0 \<longrightarrow> length base = b \<or> (ens = [] \<and> length base < b)"
  shows "py_last b (ens @ base) = base"
  using assms by (auto simp: py_last_def)

lemma get_items_base_shape:
  assumes "get_items iba self arg keep = Inr r"
  shows "base_shape r = base_shape self \<and> ha_base_dims r = ha_base_dims self \<and>
         length (ensemble_shape r) \<le> length (ensemble_shape self)"
proof -
  from get_items_cases[OF assms] obtain its shp md where
    len: "length its \<le> length (ensemble_shape self)" and
    ix: "index_shape (ha_shape self) its = Inr shp" and
    r: "r = self\<lparr>ha_shape := shp, ha_ensemble_axes_metadata := md\<rparr>" by blast
  from ix have "index_shape (ensemble_shape self @ base_shape self) its = Inr shp"
    by (simp add: shape_split[symmetric])
  from index_shape_ensemble[OF this len] obtain ens' where
    shp: "shp = ens' @ base_shape self" and l: "length ens' \<le> length (ensemble_shape self)" by blast
  have bd: "ha_base_dims r = ha_base_dims self" by (simp add: r)
  show ?thesis
  proof (cases "ha_base_dims self = 0")
    case True
    then have "ensemble_shape self = []" by (simp add: ensemble_shape_def py_but_last_def)
    with l have "ens' = []" by simp
    with shp True show ?thesis
      by (simp add: r base_shape_def ensemble_shape_def py_last_def py_but_last_def)
  next
    case False
    show ?thesis
    proof (cases "ha_base_dims self \<le> length (ha_shape self)")
      case True
      then have lb: "length (base_shape self) = ha_base_dims self"
        using False by (simp add: base_shape_def py_last_def)
      have "base_shape r = drop (length shp - ha_base_dims self) shp"
        using False by (simp add: r base_shape_def py_last_def)
      also have "\<dots> = base_shape self" using lb by (simp add: shp)
      finally have b: "base_shape r = base_shape self" .
      have "ensemble_shape r = take (length shp - ha_base_dims self) shp"
        using False by (simp add: r ensemble_shape_def py_but_last_def)
      also have "\<dots> = ens'" using lb by (simp add: shp)
      finally show ?thesis using b bd l by simp
    next
      case False2: False
      then have "ensemble_shape self = []"
        using False by (simp add: ensemble_shape_def py_but_last_def)
      with l have e: "ens' = []" by simp
      have bs: "base_shape self = ha_shape self"
        using False2 by (simp add: base_shape_def py_last_def)
      from shp e bs have "shp = ha_shape self" by simp
      then have "r = self\<lparr>ha_ensemble_axes_metadata := md\<rparr>" by (simp add: r)
      then show ?thesis by (simp add: base_shape_def ensemble_shape_def)
    qed
  qed
qed

lemma get_items_too_many:
  assumes "length its > length (ensemble_shape self)"
  shows "get_items iba self (Tuple its) keep = Inl RuntimeError"
  using assms by (simp add: get_items_def items_tuple_def keep_dims_items_def index_items_def)

lemma get_items_one_no_ensemble:
  assumes "ensemble_shape self = []"
  shows "get_items iba self (One (IntIdx i)) keep = Inl RuntimeError"
    and "get_items iba self (One (SliceIdx a b c)) keep = Inl RuntimeError"
  using assms by (simp_all add: get_items_def items_tuple_def keep_dims_items_def index_items_def)

lemma slice_indices_ok: "c \<noteq> Some 0 \<Longrightarrow> \<exists>ks. slice_indices n a b c = Inr ks"
  by (cases c) (simp_all add: slice_indices_def Let_def)

lemma np_index_ok: "- int n \<le> i \<Longrightarrow> i < int n \<Longrightarrow> \<exists>k. np_index n i = Inr k"
  by (simp add: np_index_def)

lemma index_shape_ok:
  "length its \<le> length shp \<Longrightarrow> \<forall>k < length its. valid_item (shp ! k) (its ! k) \<Longrightarrow>
   \<exists>r. index_shape shp its = Inr r"
proof (induction shp its rule: index_shape.induct)
  case (1 shp)
  then show ?case by simp
next
  case (2 it its)
  then show ?case by simp
next
  case (3 n shp i its)
  from "3.prems"(2) have v: "valid_item n (IntIdx i)" by auto
  then have "- int n \<le> i" "i < int n" by (simp_all add: valid_item_def)
  from np_index_ok[OF this] obtain k where k: "np_index n i = Inr k" by blast
  have "\<forall>k < length its. valid_item (shp ! k) (its ! k)"
    using "3.prems"(2) by auto
  with "3.IH"[OF k] "3.prems"(1) k show ?case by simp
next
  case (4 n shp a b c its)
  from "4.prems"(2) have v: "valid_item n (SliceIdx a b c)" by auto
  then have "c \<noteq> Some 0" by (simp add: valid_item_def)
  from slice_indices_ok[OF this] obtain ks where ks: "slice_indices n a b c = Inr ks" by blast
  have "\<forall>k < length its. valid_item (shp ! k) (its ! k)"
    using "4.prems"(2) by auto
  with "4.IH"[OF ks] "4.prems"(1) obtain r where "index_shape shp its = Inr r" by auto
  with ks show ?case by simp
next
  case (5 n shp its)
  from "5.prems"(2) have "valid_item n EllipsisIdx" by auto
  then show ?case by (simp add: valid_item_def)
next
  case (6 n shp its)
  from "6.prems"(2) have "valid_item n NoneIdx" by auto
  then show ?case by (simp add: valid_item_def)
qed

lemma ordinal_getitem_ok:
  "(\<exists>i. it = IntIdx i) \<or> (\<exists>a b c. it = SliceIdx a b c \<and> c \<noteq> Some 0) \<Longrightarrow>
   \<exists>md'. ordinal_getitem md it = Inr md'"
proof (cases "am_values md")
  case None
  then show ?thesis by (simp add: ordinal_getitem_def)
next
  case (Some vals)
  assume "(\<exists>i. it = IntIdx i) \<or> (\<exists>a b c. it = SliceIdx a b c \<and> c \<noteq> Some 0)"
  then consider i where "it = IntIdx i" | a b c where "it = SliceIdx a b c" "c \<noteq> Some 0"
    by blast
  then show ?thesis
  proof cases
    case 1
    then show ?thesis by (simp add: ordinal_getitem_def Some)
  next
    case 2
    from slice_indices_ok[OF 2(2), of "length vals" a b] obtain ks where
      "slice_indices (length vals) a b c = Inr ks" by blast
    then show ?thesis by (simp add: ordinal_getitem_def Some 2(1))
  qed
qed

lemma index_metadata_ok:
  "\<forall>it \<in> set its. (\<exists>i. it = IntIdx i) \<or> (\<exists>a b c. it = SliceIdx a b c \<and> c \<noteq> Some 0) \<Longrightarrow>
   \<exists>r. index_metadata mds its = Inr r"
proof (induction mds its rule: index_metadata.induct)
  case (1 mds)
  then show ?case by simp
next
  case (2 it its)
  then show ?case by simp
next
  case (3 md mds it its)
  from "3.prems" have it: "(\<exists>i. it = IntIdx i) \<or> (\<exists>a b c. it = SliceIdx a b c \<and> c \<noteq> Some 0)"
    and rest: "\<forall>it \<in> set its. (\<exists>i. it = IntIdx i) \<or> (\<exists>a b c. it = SliceIdx a b c \<and> c \<noteq> Some 0)"
    by simp_all
  show ?case
  proof (cases "is_number it")
    case True
    with "3.IH"(1)[OF True rest] show ?thesis by simp
  next
    case False
    from ordinal_getitem_ok[OF it] obtain md' where md': "ordinal_getitem md it = Inr md'" by blast
    from "3.IH"(2)[OF False md' rest] obtain r where "index_metadata mds its = Inr r" by blast
    with False md' show ?thesis by simp
  qed
qed

lemma valid_item_kinds:
  "valid_item n it \<Longrightarrow> (\<exists>i. it = IntIdx i) \<or> (\<exists>a b c. it = SliceIdx a b c \<and> c \<noteq> Some 0)"
  by (cases it) (simp_all add: valid_item_def)

lemma valid_item_keep:
  "valid_item n it \<Longrightarrow>
   valid_item n (case it of IntIdx i \<Rightarrow> SliceIdx (Some i) (Some (i + 1)) None | _ \<Rightarrow> it)"
  by (cases it) (simp_all add: valid_item_def)

lemma keep_dims_items_valid:
  assumes "\<forall>k < length its. valid_item (shp ! k) (its ! k)"
  shows "length (keep_dims_items keep its) = length its \<and>
         (\<forall>k < length its. valid_item (shp ! k) (keep_dims_items keep its ! k))"
proof (cases keep)
  case False
  then show ?thesis using assms by (simp add: keep_dims_items_def)
next
  case True
  have "valid_item (shp ! k) (keep_dims_items keep its ! k)" if "k < length its" for k
  proof -
    from that assms have "valid_item (shp ! k) (its ! k)" by blast
    from valid_item_keep[OF this] that show ?thesis
      by (simp add: keep_dims_items_def True)
  qed
  then show ?thesis by (simp add: keep_dims_items_def)
qed

lemma index_items_ok:
  assumes iba: "\<forall>axes. (\<forall>a \<in> set axes. a < length (ensemble_shape self)) \<longrightarrow> \<not> iba self axes"
      and len: "length its \<le> length (ensemble_shape self)"
      and val: "\<forall>k < length its. valid_item (ha_shape self ! k) (its ! k)"
  shows "\<exists>r. index_items iba self its = Inr r"
proof -
  have kinds: "\<forall>it \<in> set its. (\<exists>i. it = IntIdx i) \<or> (\<exists>a b c. it = SliceIdx a b c \<and> c \<noteq> Some 0)"
  proof
    fix it assume "it \<in> set its"
    then obtain k where "k < length its" "its ! k = it" by (auto simp: in_set_conv_nth)
    with val have "valid_item (ha_shape self ! k) it" by auto
    then show "(\<exists>i. it = IntIdx i) \<or> (\<exists>a b c. it = SliceIdx a b c \<and> c \<noteq> Some 0)"
      by (rule valid_item_kinds)
  qed
  then have plain: "\<not> (\<exists>it \<in> set its. it = EllipsisIdx \<or> it = NoneIdx)" by auto
  have "\<forall>a \<in> set (filter (\<lambda>i. is_number (its ! i)) [0..<length its]). a < length (ensemble_shape self)"
    using len by auto
  with iba have nb: "\<not> iba self (filter (\<lambda>i. is_number (its ! i)) [0..<length its])" by blast
  from index_metadata_ok[OF kinds] obtain md where
    md: "index_metadata (ha_ensemble_axes_metadata self) its = Inr md" by blast
  have "length (ensemble_shape self) \<le> length (ha_shape self)"
    by (simp add: ensemble_shape_def py_but_last_def)
  with len have "length its \<le> length (ha_shape self)" by simp
  from index_shape_ok[OF this val] obtain shp where
    shp: "index_shape (ha_shape self) its = Inr shp" by blast
  show ?thesis
    using len plain nb md shp
    by (simp add: index_items_def Let_def del: bex_simps)
qed

lemma get_items_ok:
  assumes iba: "\<forall>axes. (\<forall>a \<in> set axes. a < length (ensemble_shape self)) \<longrightarrow> \<not> iba self axes"
      and len: "length its \<le> length (ensemble_shape self)"
      and val: "\<forall>k < length its. valid_item (ha_shape self ! k) (its ! k)"
  shows "\<exists>r. get_items iba self (Tuple its) keep = Inr r"
proof -
  from keep_dims_items_valid[OF val, of keep]
  have l: "length (keep_dims_items keep its) \<le> length (ensemble_shape self)"
    and v: "\<forall>k < length (keep_dims_items keep its).
              valid_item (ha_shape self ! k) (keep_dims_items keep its ! k)"
    using len by simp_all
  from index_items_ok[of self iba "keep_dims_items keep its", OF iba l v] show ?thesis
    by (simp add: get_items_def items_tuple_def)
qed

text \<open>
  Claim C8 (base axes cannot be indexed). An index tuple with more items than there are
  ensemble axes makes \<open>get_items\<close> raise \<open>RuntimeError\<close>, and so does a single number or
  slice on an object without ensemble axes. Whenever \<open>get_items\<close> returns, the base shape
  and the number of base axes are what they were: the new shape is a new ensemble shape
  followed by the old base shape. Indexing confined to the ensemble axes succeeds: at most
  as many items as ensemble axes, each an integer within its axis or a slice with a
  non-zero step, given that \<open>_is_base_axis\<close> does not report ensemble axes as base axes.
\<close>

theorem get_items_base_axes:
  "(length its > length (ensemble_shape self) \<longrightarrow>
      get_items iba self (Tuple its) keep = Inl RuntimeError) \<and>
   (ensemble_shape self = [] \<longrightarrow>
      get_items iba self (One (IntIdx i)) keep = Inl RuntimeError \<and>
      get_items iba self (One (SliceIdx a b c)) keep = Inl RuntimeError) \<and>
   (get_items iba self arg keep = Inr r \<longrightarrow>
      base_shape r = base_shape self \<and> ha_base_dims r = ha_base_dims self \<and>
      ha_shape r = ensemble_shape r @ base_shape self \<and>
      length (ensemble_shape r) \<le> length (ensemble_shape self)) \<and>
   ((\<forall>axes. (\<forall>a \<in> set axes. a < length (ensemble_shape self)) \<longrightarrow> \<not> iba self axes) \<and>
    length its \<le> length (ensemble_shape self) \<and>
    (\<forall>k < length its. valid_item (ha_shape self ! k) (its ! k)) \<longrightarrow>
      (\<exists>r. get_items iba self (Tuple its) keep = Inr r))"
proof (intro conjI impI)
  assume "length its > length (ensemble_shape self)"
  then show "get_items iba self (Tuple its) keep = Inl RuntimeError"
    by (rule get_items_too_many)
next
  assume e: "ensemble_shape self = []"
  show "get_items iba self (One (IntIdx i)) keep = Inl RuntimeError"
    by (rule get_items_one_no_ensemble(1)[OF e])
  show "get_items iba self (One (SliceIdx a b c)) keep = Inl RuntimeError"
    by (rule get_items_one_no_ensemble(2)[OF e])
next
  assume g: "get_items iba self arg keep = Inr r"
  from get_items_base_shape[OF g]
  show "base_shape r = base_shape self" "ha_base_dims r = ha_base_dims self"
    "length (ensemble_shape r) \<le> length (ensemble_shape self)" by simp_all
  from get_items_base_shape[OF g] shape_split[of r]
  show "ha_shape r = ensemble_shape r @ base_shape self" by simp
next
  assume "(\<forall>axes. (\<forall>a \<in> set axes. a < length (ensemble_shape self)) \<longrightarrow> \<not> iba self axes) \<and>
    length its \<le> length (ensemble_shape self) \<and>
    (\<forall>k < length its. valid_item (ha_shape self ! k) (its ! k))"
  then have h: "\<forall>axes. (\<forall>a \<in> set axes. a < length (ensemble_shape self)) \<longrightarrow> \<not> iba self axes"
    "length its \<le> length (ensemble_shape self)"
    "\<forall>k < length its. valid_item (ha_shape self ! k) (its ! k)" by blast+
  show "\<exists>r. get_items iba self (Tuple its) keep = Inr r"
    by (rule get_items_ok[of self iba its keep, OF h])
qed

lemma waves_like_ensemble: "ensemble_shape waves_like = [2, 3]"
  by (simp add: ensemble_shape_def py_but_last_def waves_like_def)

theorem get_items_base_axes_witness:
  "length [IntIdx 0, IntIdx 0, IntIdx 0] > length (ensemble_shape waves_like) \<and>
   get_items base_axis_test waves_like (Tuple [IntIdx 0, IntIdx 0, IntIdx 0]) False = Inl RuntimeError \<and>
   ensemble_shape plain_image = [] \<and>
   get_items base_axis_test plain_image (One (IntIdx 0)) False = Inl RuntimeError \<and>
   get_items base_axis_test waves_like (Tuple [IntIdx 1, SliceIdx None (Some 2) None]) False =
     Inr \<lparr>ha_shape = [2, 4, 4], ha_base_dims = 2,
          ha_ensemble_axes_metadata = [\<lparr>am_values = None, am_squeeze = False\<rparr>]\<rparr> \<and>
   base_shape \<lparr>ha_shape = [2, 4, 4], ha_base_dims = 2,
          ha_ensemble_axes_metadata = [\<lparr>am_values = None, am_squeeze = False\<rparr>]\<rparr> = base_shape waves_like \<and>
   length [IntIdx 1, SliceIdx None (Some 2) None] \<le> length (ensemble_shape waves_like) \<and>
   valid_item (ha_shape waves_like ! 0) (IntIdx 1) \<and>
   valid_item (ha_shape waves_like ! 1) (SliceIdx None (Some 2) None) \<and>
   (\<exists>r. get_items base_axis_test waves_like (Tuple [IntIdx 1, SliceIdx None (Some 2) None]) False = Inr r)"
proof -
  have ens: "ensemble_shape waves_like = [2, 3]"
    by (simp add: ensemble_shape_def py_but_last_def waves_like_def)
  have ens0: "ensemble_shape plain_image = []"
    by (simp add: ensemble_shape_def py_but_last_def plain_image_def)
  have sl: "slice_indices 3 None (Some 2) None = Inr [0, 1]"
    by (simp add: slice_indices_def Let_def upt_rec)
  have ev: "get_items base_axis_test waves_like (Tuple [IntIdx 1, SliceIdx None (Some 2) None]) False =
     Inr \<lparr>ha_shape = [2, 4, 4], ha_base_dims = 2,
          ha_ensemble_axes_metadata = [\<lparr>am_values = None, am_squeeze = False\<rparr>]\<rparr>"
    by (simp add: get_items_def items_tuple_def keep_dims_items_def index_items_def ens Let_def
        is_number_def base_axis_test_def upt_rec)
       (simp add: waves_like_def ordinal_getitem_def np_index_def sl is_number_def)
  have bs: "base_shape \<lparr>ha_shape = [2, 4, 4], ha_base_dims = 2,
          ha_ensemble_axes_metadata = [\<lparr>am_values = None, am_squeeze = False\<rparr>]\<rparr> = base_shape waves_like"
    by (simp add: base_shape_def py_last_def waves_like_def)
  have v: "valid_item (ha_shape waves_like ! 0) (IntIdx 1)"
    "valid_item (ha_shape waves_like ! 1) (SliceIdx None (Some 2) None)"
    by (simp_all add: valid_item_def waves_like_def)
  note t1 = get_items_base_axes[where its = "[IntIdx 0, IntIdx 0, IntIdx 0]" and self = waves_like
      and iba = base_axis_test and keep = False]
  note t2 = get_items_base_axes[where self = plain_image and iba = base_axis_test and keep = False
      and i = 0]
  from t1 have a: "get_items base_axis_test waves_like (Tuple [IntIdx 0, IntIdx 0, IntIdx 0]) False = Inl RuntimeError"
    by (simp add: ens)
  from t2 ens0 have b: "get_items base_axis_test plain_image (One (IntIdx 0)) False = Inl RuntimeError"
    by blast
  show ?thesis
    using a b ens ens0 ev bs v by simp
qed

lemma length_base_shape:
  "length (base_shape self) =
     (if ha_base_dims self = 0 then length (ha_shape self)
      else min (ha_base_dims self) (length (ha_shape self)))"
  by (auto simp: base_shape_def py_last_def min_def)

lemma squeeze_ensemble_part:
  "py_but_last (length (base_shape self)) (ha_shape self) = ensemble_shape self"
  by (auto simp: length_base_shape py_but_last_def ensemble_shape_def min_def)


lemma squeezed_axes_mem:
  "i \<in> set (squeezed_axes na self axis0) \<longleftrightarrow>
     i < length (ensemble_shape self) \<and> ensemble_shape self ! i = 1 \<and>
     int i \<in> set (requested_axes na self axis0)"
  by (auto simp: squeezed_axes_def Let_def squeeze_ensemble_part)

lemma squeezed_axes_shape:
  assumes "i \<in> set (squeezed_axes na self axis0)"
  shows "i < length (ha_shape self) \<and> ha_shape self ! i = 1"
proof -
  from assms have i: "i < length (ensemble_shape self)" "ensemble_shape self ! i = 1"
    by (simp_all add: squeezed_axes_mem)
  have "ha_shape self ! i = ensemble_shape self ! i"
    using i(1) by (subst shape_split) (simp add: nth_append)
  moreover have "i < length (ha_shape self)"
    using i(1) by (subst shape_split) simp
  ultimately show ?thesis using i(2) by simp
qed

lemma filter_enumerate_append:
  assumes "\<forall>i \<in> S. i < length xs"
  shows "map snd (filter (\<lambda>p. fst p \<notin> S) (enumerate 0 (xs @ ys))) =
         map snd (filter (\<lambda>p. fst p \<notin> S) (enumerate 0 xs)) @ ys"
proof -
  have "filter (\<lambda>p. fst p \<notin> S) (enumerate (length xs) ys) = enumerate (length xs) ys"
    using assms by (auto simp: filter_id_conv in_set_enumerate_eq)
  then show ?thesis by (simp add: enumerate_append_eq)
qed

lemma length_filter_enumerate:
  "length (map snd (filter P (enumerate 0 xs))) \<le> length xs"
  by (metis length_map length_filter_le length_enumerate le_trans order_refl)

lemma squeeze_result:
  "squeeze na self axis0 =
     Inr (self\<lparr>ha_shape :=
                 map snd (filter (\<lambda>p. fst p \<notin> set (squeezed_axes na self axis0))
                            (enumerate 0 (ensemble_shape self))) @ base_shape self,
               ha_ensemble_axes_metadata :=
                 map snd (filter (\<lambda>p. fst p \<notin> set (squeezed_axes na self axis0))
                            (enumerate 0 (ha_ensemble_axes_metadata self)))\<rparr>)"
proof -
  let ?sq = "squeezed_axes na self axis0"
  have nlt: "\<not> length (ha_shape self) < length (base_shape self)"
    by (simp add: length_base_shape)
  have ok: "\<not> (\<exists>a \<in> set ?sq. a \<ge> length (ha_shape self) \<or> ha_shape self ! a \<noteq> 1)"
  proof
    assume "\<exists>a \<in> set ?sq. a \<ge> length (ha_shape self) \<or> ha_shape self ! a \<noteq> 1"
    then obtain a where a: "a \<in> set ?sq" "a \<ge> length (ha_shape self) \<or> ha_shape self ! a \<noteq> 1"
      by blast
    from squeezed_axes_shape[OF a(1)] a(2) show False by simp
  qed
  have inens: "\<forall>i \<in> set ?sq. i < length (ensemble_shape self)"
    by (simp add: squeezed_axes_mem)
  have "map snd (filter (\<lambda>p. fst p \<notin> set ?sq) (enumerate 0 (ha_shape self))) =
        map snd (filter (\<lambda>p. fst p \<notin> set ?sq) (enumerate 0 (ensemble_shape self))) @ base_shape self"
    using filter_enumerate_append[OF inens, of "base_shape self"]
    by (simp add: shape_split[symmetric])
  then have "np_squeeze (ha_shape self) ?sq =
     Inr (map snd (filter (\<lambda>p. fst p \<notin> set ?sq) (enumerate 0 (ensemble_shape self))) @ base_shape self)"
    using ok by (simp only: np_squeeze_def if_False)
  then show ?thesis
    using nlt by (simp add: squeeze_def Let_def)
qed

lemma base_shape_of_append:
  assumes "length ens' \<le> length (ensemble_shape self)"
  shows "base_shape (self\<lparr>ha_shape := ens' @ base_shape self, ha_ensemble_axes_metadata := md\<rparr>)
           = base_shape self \<and>
         ensemble_shape (self\<lparr>ha_shape := ens' @ base_shape self, ha_ensemble_axes_metadata := md\<rparr>)
           = ens'"
proof (cases "ha_base_dims self = 0")
  case True
  then have "ensemble_shape self = []" by (simp add: ensemble_shape_def py_but_last_def)
  with assms have "ens' = []" by simp
  with True show ?thesis
    by (simp add: base_shape_def ensemble_shape_def py_last_def py_but_last_def)
next
  case False
  show ?thesis
  proof (cases "ha_base_dims self \<le> length (ha_shape self)")
    case True
    then have lb: "length (base_shape self) = ha_base_dims self"
      using False by (simp add: base_shape_def py_last_def)
    have "py_last (ha_base_dims self) (ens' @ base_shape self) = base_shape self"
      using False lb by (simp add: py_last_def)
    moreover have "py_but_last (ha_base_dims self) (ens' @ base_shape self) = ens'"
      using False lb by (simp add: py_but_last_def)
    ultimately show ?thesis by (simp add: base_shape_def ensemble_shape_def)
  next
    case F2: False
    then have "ensemble_shape self = []"
      using False by (simp add: ensemble_shape_def py_but_last_def)
    with assms have e: "ens' = []" by simp
    have bs: "base_shape self = ha_shape self"
      using F2 by (simp add: base_shape_def py_last_def)
    have short: "length (ha_shape self) < ha_base_dims self" using F2 by simp
    show ?thesis
      using False short by (simp add: e bs base_shape_def ensemble_shape_def py_last_def py_but_last_def)
  qed
qed

lemma squeeze_keeps_base:
  "\<exists>r. squeeze na self axis0 = Inr r \<and>
     ensemble_shape r = map snd (filter (\<lambda>p. fst p \<notin> set (squeezed_axes na self axis0))
                                   (enumerate 0 (ensemble_shape self))) \<and>
     ha_ensemble_axes_metadata r =
        map snd (filter (\<lambda>p. fst p \<notin> set (squeezed_axes na self axis0))
                   (enumerate 0 (ha_ensemble_axes_metadata self))) \<and>
     base_shape r = base_shape self \<and> ha_base_dims r = ha_base_dims self"
proof -
  let ?ens' = "map snd (filter (\<lambda>p. fst p \<notin> set (squeezed_axes na self axis0))
                          (enumerate 0 (ensemble_shape self)))"
  let ?md = "map snd (filter (\<lambda>p. fst p \<notin> set (squeezed_axes na self axis0))
                   (enumerate 0 (ha_ensemble_axes_metadata self)))"
  let ?r = "self\<lparr>ha_shape := ?ens' @ base_shape self, ha_ensemble_axes_metadata := ?md\<rparr>"
  have l: "length ?ens' \<le> length (ensemble_shape self)" by (rule length_filter_enumerate)
  from base_shape_of_append[OF l, of ?md]
  have "base_shape ?r = base_shape self" "ensemble_shape ?r = ?ens'" by simp_all
  moreover have "squeeze na self axis0 = Inr ?r" by (rule squeeze_result)
  moreover have "ha_ensemble_axes_metadata ?r = ?md" "ha_base_dims ?r = ha_base_dims self" by simp_all
  ultimately show ?thesis by blast
qed

lemma reduce_ensemble_requested:
  assumes "\<forall>ax shp. (\<forall>a \<in> set ax. 0 \<le> a) \<longrightarrow> set (na ax shp) = set ax"
  shows "set (requested_axes na ensemble
           (Some (map (\<lambda>p. int (fst p))
                   (filter (\<lambda>p. am_squeeze (snd p)) (enumerate 0 (ha_ensemble_axes_metadata ensemble))))))
         = {int i | i. i < length (ha_ensemble_axes_metadata ensemble) \<and>
                       am_squeeze (ha_ensemble_axes_metadata ensemble ! i)}"
proof -
  let ?arg = "map (\<lambda>p. int (fst p))
                (filter (\<lambda>p. am_squeeze (snd p)) (enumerate 0 (ha_ensemble_axes_metadata ensemble)))"
  have "\<forall>a \<in> set ?arg. 0 \<le> a" by auto
  with assms have "set (na ?arg (ha_shape ensemble)) = set ?arg" by blast
  moreover have "set ?arg = {int i | i. i < length (ha_ensemble_axes_metadata ensemble) \<and>
                       am_squeeze (ha_ensemble_axes_metadata ensemble ! i)}"
    by (auto simp: in_set_enumerate_eq image_iff)
  ultimately show ?thesis by (simp add: requested_axes_def)
qed

text \<open>
  \<open>_reduce_ensemble\<close> on one object that has no method \<open>reduce_ensemble\<close> after the
  squeeze: it requests the axes with squeeze-eligible metadata, so it removes exactly the
  ensemble axes that have size 1 and squeeze-eligible metadata (given that
  \<open>normalize_axes\<close> leaves non-negative axes as they are).
\<close>

lemma reduce_ensemble_without_method:
  assumes na: "\<forall>ax shp. (\<forall>a \<in> set ax. 0 \<le> a) \<longrightarrow> set (na ax shp) = set ax"
      and own: "\<forall>output. own output = None"
  shows "\<exists>r. reduce_ensemble na own (Single self) = Inr (Single r) \<and>
         ensemble_shape r =
           map snd (filter (\<lambda>p. \<not> (fst p < length (ensemble_shape self) \<and>
                                     ensemble_shape self ! fst p = 1 \<and>
                                     fst p < length (ha_ensemble_axes_metadata self) \<and>
                                     am_squeeze (ha_ensemble_axes_metadata self ! fst p)))
                      (enumerate 0 (ensemble_shape self))) \<and>
         ha_ensemble_axes_metadata r =
           map snd (filter (\<lambda>p. \<not> (fst p < length (ensemble_shape self) \<and>
                                     ensemble_shape self ! fst p = 1 \<and>
                                     fst p < length (ha_ensemble_axes_metadata self) \<and>
                                     am_squeeze (ha_ensemble_axes_metadata self ! fst p)))
                      (enumerate 0 (ha_ensemble_axes_metadata self))) \<and>
         base_shape r = base_shape self \<and> ha_base_dims r = ha_base_dims self"
proof -
  let ?arg = "Some (map (\<lambda>p. int (fst p))
                   (filter (\<lambda>p. am_squeeze (snd p)) (enumerate 0 (ha_ensemble_axes_metadata self))))"
  have mem: "i \<in> set (squeezed_axes na self ?arg) \<longleftrightarrow>
               (i < length (ensemble_shape self) \<and> ensemble_shape self ! i = 1 \<and>
                i < length (ha_ensemble_axes_metadata self) \<and>
                am_squeeze (ha_ensemble_axes_metadata self ! i))" for i
    unfolding squeezed_axes_mem reduce_ensemble_requested[OF na] by auto
  have p: "(\<lambda>p. fst p \<notin> set (squeezed_axes na self ?arg)) =
           (\<lambda>p. \<not> (fst p < length (ensemble_shape self) \<and>
                     ensemble_shape self ! fst p = 1 \<and>
                     fst p < length (ha_ensemble_axes_metadata self) \<and>
                     am_squeeze (ha_ensemble_axes_metadata self ! fst p)))"
    by (rule ext) (simp only: mem)
  from squeeze_keeps_base[of na self ?arg] obtain r where
    r: "squeeze na self ?arg = Inr r"
       "ensemble_shape r = map snd (filter (\<lambda>p. fst p \<notin> set (squeezed_axes na self ?arg))
                                      (enumerate 0 (ensemble_shape self)))"
       "ha_ensemble_axes_metadata r =
          map snd (filter (\<lambda>p. fst p \<notin> set (squeezed_axes na self ?arg))
                     (enumerate 0 (ha_ensemble_axes_metadata self)))"
       "base_shape r = base_shape self" "ha_base_dims r = ha_base_dims self"
    by blast
  have "reduce_ensemble na own (Single self) = Inr (Single r)"
    using r(1) own by (simp add: Let_def)
  with r(2-5) show ?thesis unfolding p by blast
qed

text \<open>
  Claim C9 (squeeze restriction), as amended. \<open>squeeze\<close> always returns. The axes it
  removes are exactly the ensemble axes of size 1 among the requested axes (every axis
  when none is given); the metadata of the axes plays no part. The entries of the
  ensemble shape and of the ensemble metadata at the removed positions are dropped and all
  others kept in order; the base shape and the number of base axes are unchanged; every
  removed axis is an ensemble axis of size 1.
\<close>

theorem squeeze_removes_requested_unit_axes:
  "(\<exists>r. squeeze na self axis0 = Inr r \<and>
        ensemble_shape r = map snd (filter (\<lambda>p. fst p \<notin> set (squeezed_axes na self axis0))
                                      (enumerate 0 (ensemble_shape self))) \<and>
        ha_ensemble_axes_metadata r =
          map snd (filter (\<lambda>p. fst p \<notin> set (squeezed_axes na self axis0))
                     (enumerate 0 (ha_ensemble_axes_metadata self))) \<and>
        base_shape r = base_shape self \<and> ha_base_dims r = ha_base_dims self) \<and>
   set (squeezed_axes na self axis0) =
     {i. i < length (ensemble_shape self) \<and> ensemble_shape self ! i = 1 \<and>
         int i \<in> set (requested_axes na self axis0)} \<and>
   (\<forall>i \<in> set (squeezed_axes na self axis0).
      i < length (ensemble_shape self) \<and> ha_shape self ! i = 1)"
proof (intro conjI)
  show "\<exists>r. squeeze na self axis0 = Inr r \<and>
        ensemble_shape r = map snd (filter (\<lambda>p. fst p \<notin> set (squeezed_axes na self axis0))
                                      (enumerate 0 (ensemble_shape self))) \<and>
        ha_ensemble_axes_metadata r =
          map snd (filter (\<lambda>p. fst p \<notin> set (squeezed_axes na self axis0))
                     (enumerate 0 (ha_ensemble_axes_metadata self))) \<and>
        base_shape r = base_shape self \<and> ha_base_dims r = ha_base_dims self"
    by (rule squeeze_keeps_base)
  show "set (squeezed_axes na self axis0) =
     {i. i < length (ensemble_shape self) \<and> ensemble_shape self ! i = 1 \<and>
         int i \<in> set (requested_axes na self axis0)}"
    using squeezed_axes_mem[of _ na self axis0] by blast
  show "\<forall>i \<in> set (squeezed_axes na self axis0).
      i < length (ensemble_shape self) \<and> ha_shape self ! i = 1"
    using squeezed_axes_mem[of _ na self axis0] squeezed_axes_shape[of _ na self axis0] by blast
qed


lemma wrap_negative_nonneg:
  "\<forall>ax shp. (\<forall>a \<in> set ax. 0 \<le> a) \<longrightarrow> set (wrap_negative ax shp) = set ax"
proof (intro allI impI)
  fix ax :: "int list" and shp :: "nat list"
  assume "\<forall>a \<in> set ax. 0 \<le> a"
  then have "map (\<lambda>a. if a < 0 then a + int (length shp) else a) ax = map (\<lambda>a. a) ax"
    by (intro map_cong refl) auto
  then show "set (wrap_negative ax shp) = set ax" by (simp add: wrap_negative_def)
qed

lemma upt_0_3: "[0..<3] = [0, 1, 2]"
  by (simp add: upt_rec)

lemma upt_0_5: "[0..<5] = [0, 1, 2, 3, 4]"
  by (simp add: upt_rec)

lemma scanned_ens: "ensemble_shape scanned_waves = [1, 1, 5]"
  by (simp add: ensemble_shape_def py_but_last_def scanned_waves_def)

lemma scanned_base: "base_shape scanned_waves = [4, 4]"
  by (simp add: base_shape_def py_last_def scanned_waves_def)

lemma scanned_requested_all: "requested_axes wrap_negative scanned_waves None = [0, 1, 2, 3, 4]"
  by (simp add: requested_axes_def scanned_waves_def upt_0_5)

lemma scanned_squeezed_all: "squeezed_axes wrap_negative scanned_waves None = [0, 1]"
  unfolding squeezed_axes_def Let_def squeeze_ensemble_part scanned_ens scanned_requested_all
  by (simp add: upt_0_3)

lemma enumerate_3: "enumerate 0 [a, b, c] = [(0, a), (1, b), (2, c)]"
  by (simp add: enumerate_eq_zip upt_0_3)

lemma scanned_squeeze_all:
  "squeeze wrap_negative scanned_waves None =
     Inr \<lparr>ha_shape = [5, 4, 4], ha_base_dims = 2,
          ha_ensemble_axes_metadata = [\<lparr>am_values = None, am_squeeze = True\<rparr>]\<rparr>"
  unfolding squeeze_result scanned_squeezed_all scanned_ens scanned_base
  by (simp add: scanned_waves_def enumerate_3)

lemma scanned_reduce:
  "reduce_ensemble wrap_negative (\<lambda>_. None) (Single scanned_waves) =
     Inr (Single \<lparr>ha_shape = [1, 5, 4, 4], ha_base_dims = 2,
          ha_ensemble_axes_metadata = [\<lparr>am_values = None, am_squeeze = False\<rparr>,
                                       \<lparr>am_values = None, am_squeeze = True\<rparr>]\<rparr>)"
proof -
  have arg: "map (\<lambda>p. int (fst p))
               (filter (\<lambda>p. am_squeeze (snd p)) (enumerate 0 (ha_ensemble_axes_metadata scanned_waves)))
             = [0, 2]"
    by (simp add: scanned_waves_def enumerate_3)
  have req: "requested_axes wrap_negative scanned_waves (Some [0, 2]) = [0, 2]"
    by (simp add: requested_axes_def wrap_negative_def)
  have sq: "squeezed_axes wrap_negative scanned_waves (Some [0, 2]) = [0]"
    unfolding squeezed_axes_def Let_def squeeze_ensemble_part scanned_ens req
    by (simp add: upt_0_3)
  have s: "squeeze wrap_negative scanned_waves (Some [0, 2]) =
     Inr \<lparr>ha_shape = [1, 5, 4, 4], ha_base_dims = 2,
          ha_ensemble_axes_metadata = [\<lparr>am_values = None, am_squeeze = False\<rparr>,
                                       \<lparr>am_values = None, am_squeeze = True\<rparr>]\<rparr>"
    unfolding squeeze_result sq scanned_ens scanned_base
    by (simp add: scanned_waves_def enumerate_3)
  show ?thesis
    unfolding reduce_ensemble.simps Let_def arg s by simp
qed

theorem squeeze_removes_requested_unit_axes_witness:
  "squeeze wrap_negative scanned_waves None =
     Inr \<lparr>ha_shape = [5, 4, 4], ha_base_dims = 2,
          ha_ensemble_axes_metadata = [\<lparr>am_values = None, am_squeeze = True\<rparr>]\<rparr> \<and>
   set (squeezed_axes wrap_negative scanned_waves None) = {0, 1} \<and>
   (0::nat) < length (ensemble_shape scanned_waves) \<and> ha_shape scanned_waves ! 0 = 1 \<and>
   (1::nat) < length (ensemble_shape scanned_waves) \<and> ha_shape scanned_waves ! 1 = 1 \<and>
   (\<exists>r. squeeze wrap_negative scanned_waves None = Inr r \<and> base_shape r = base_shape scanned_waves)"
proof -
  note t = squeeze_removes_requested_unit_axes[of wrap_negative scanned_waves None]
  from t obtain r where
    r: "squeeze wrap_negative scanned_waves None = Inr r" "base_shape r = base_shape scanned_waves"
    by blast
  have s: "set (squeezed_axes wrap_negative scanned_waves None) = {0, 1}"
    by (simp add: scanned_squeezed_all)
  from t have b: "\<forall>i \<in> set (squeezed_axes wrap_negative scanned_waves None).
      i < length (ensemble_shape scanned_waves) \<and> ha_shape scanned_waves ! i = 1"
    by blast
  then have u: "\<forall>i \<in> {0, 1 :: nat}. i < length (ensemble_shape scanned_waves) \<and> ha_shape scanned_waves ! i = 1"
    unfolding s .
  from r s u scanned_squeeze_all show ?thesis by blast
qed

lemma single_ens: "ensemble_shape single_wave = [1]"
  by (simp add: ensemble_shape_def py_but_last_def single_wave_def)

lemma single_requested: "requested_axes wrap_negative single_wave None = [0, 1, 2]"
  by (simp add: requested_axes_def single_wave_def upt_0_3)

lemma single_squeezed: "squeezed_axes wrap_negative single_wave None = [0]"
  unfolding squeezed_axes_def Let_def squeeze_ensemble_part single_ens single_requested
  by simp

lemma single_squeeze: "squeeze wrap_negative single_wave None = Inr plain_image"
  unfolding squeeze_result single_squeezed single_ens
  by (simp add: single_wave_def plain_image_def base_shape_def py_last_def enumerate_eq_zip)

text \<open>
  The claim as stated fails for \<open>squeeze\<close> itself: called without an axis on an object
  whose only ensemble axis has size 1 and metadata that is not squeeze-eligible, it removes
  that axis.
\<close>

theorem squeeze_eligibility_counterexample:
  "squeeze wrap_negative single_wave None = Inr plain_image \<and>
   ha_shape single_wave = [1, 4, 4] \<and> ha_shape plain_image = [4, 4] \<and>
   \<not> am_squeeze (ha_ensemble_axes_metadata single_wave ! 0) \<and>
   \<not> (\<forall>na self axis0.
        set (squeezed_axes na self axis0) =
          {i. i < length (ensemble_shape self) \<and> ensemble_shape self ! i = 1 \<and>
              i < length (ha_ensemble_axes_metadata self) \<and>
              am_squeeze (ha_ensemble_axes_metadata self ! i) \<and>
              int i \<in> set (requested_axes na self axis0)})"
proof (intro conjI)
  show "squeeze wrap_negative single_wave None = Inr plain_image" by (rule single_squeeze)
  show "ha_shape single_wave = [1, 4, 4]" by (simp add: single_wave_def)
  show "ha_shape plain_image = [4, 4]" by (simp add: plain_image_def)
  show ne: "\<not> am_squeeze (ha_ensemble_axes_metadata single_wave ! 0)" by (simp add: single_wave_def)
  show "\<not> (\<forall>na self axis0.
        set (squeezed_axes na self axis0) =
          {i. i < length (ensemble_shape self) \<and> ensemble_shape self ! i = 1 \<and>
              i < length (ha_ensemble_axes_metadata self) \<and>
              am_squeeze (ha_ensemble_axes_metadata self ! i) \<and>
              int i \<in> set (requested_axes na self axis0)})"
  proof
    assume "\<forall>na self axis0.
        set (squeezed_axes na self axis0) =
          {i. i < length (ensemble_shape self) \<and> ensemble_shape self ! i = 1 \<and>
              i < length (ha_ensemble_axes_metadata self) \<and>
              am_squeeze (ha_ensemble_axes_metadata self ! i) \<and>
              int i \<in> set (requested_axes na self axis0)}"
    then have eq: "set (squeezed_axes wrap_negative single_wave None) =
          {i. i < length (ensemble_shape single_wave) \<and> ensemble_shape single_wave ! i = 1 \<and>
              i < length (ha_ensemble_axes_metadata single_wave) \<and>
              am_squeeze (ha_ensemble_axes_metadata single_wave ! i) \<and>
              int i \<in> set (requested_axes wrap_negative single_wave None)}"
      by blast
    have "0 \<in> set (squeezed_axes wrap_negative single_wave None)"
      by (simp add: single_squeezed)
    then have "0 \<in> {i. i < length (ensemble_shape single_wave) \<and> ensemble_shape single_wave ! i = 1 \<and>
              i < length (ha_ensemble_axes_metadata single_wave) \<and>
              am_squeeze (ha_ensemble_axes_metadata single_wave ! i) \<and>
              int i \<in> set (requested_axes wrap_negative single_wave None)}"
      unfolding eq .
    then have "am_squeeze (ha_ensemble_axes_metadata single_wave ! 0)" by blast
    with ne show False by simp
  qed
qed

section \<open>Properties of the entry points of the multislice and of the CTF\<close>












section \<open>Properties of the projected potential\<close>

lemma shape_cell_add [simp]: "shape (cell_add a b) = shape a"
  by (simp add: cell_add_def)

lemma superpose_deltas_density:
  assumes "0 < s0" "0 < s1"
  shows "superpose_deltas ps (zeros (s0, s1)) (None :: 'si option) None = Inr (density (s0, s1) ps)"
proof -
  have sh: "shape (zeros (s0, s1)) = (s0, s1)" by (simp add: zeros_def)
  from superpose_deltas_returns[OF assms sh, of ps, where 'si = 'si]
  obtain a' where a': "superpose_deltas ps (zeros (s0, s1)) (None :: 'si option) None = Inr a'"
    "shape a' = shape (zeros (s0, s1))"
    "\<forall>cell. cells a' cell = cells (zeros (s0, s1)) cell
        + sum_list (map (\<lambda>d. snd (snd d)) (filter (\<lambda>d. (nat (fst d), nat (fst (snd d))) = cell)
            (sd_deposits (sd_i (s0, s1) ps) (sd_j (s0, s1) ps) (sd_v ps))))"
    by blast
  have "shape a' = shape (density (s0, s1) ps)" using a'(2) by (simp add: density_def zeros_def)
  moreover have "cells a' = cells (density (s0, s1) ps)"
    by (rule ext) (simp add: a'(3) density_def zeros_def)
  ultimately have "a' = density (s0, s1) ps" by simp
  with a'(1) show ?thesis by simp
qed

lemma shape_density [simp]: "shape (density shp ps) = shp"
  by (simp add: density_def)

lemma accumulate_species_sum:
  assumes ks: "keeps_shape fft2" and pos: "0 < s0" "0 < s1"
  shows "shape array = (s0, s1) \<Longrightarrow>
     \<forall>s \<in> set species. s \<in> set numbers \<and> (\<exists>k. map_of sf s = Some k \<and> shape k = (s0, s1)) \<Longrightarrow>
     accumulate_species fft2 positions numbers sf (None :: 'si option) array species =
       Inr (foldl cell_add array (map (species_term fft2 (s0, s1) positions numbers sf) species))"
proof (induction species arbitrary: array)
  case Nil
  then show ?case by simp
next
  case (Cons s rest)
  from Cons.prems(2) obtain k where k: "map_of sf s = Some k" "shape k = (s0, s1)" and
    mem: "s \<in> set numbers" by auto
  let ?sel = "map (\<lambda>n. n = s) numbers"
  have any: "\<exists>m \<in> set ?sel. m" using mem by auto
  have sup: "superpose_deltas (masked positions ?sel) (zeros (s0, s1)) (None :: 'si option) None
               = Inr (density (s0, s1) (masked positions ?sel))"
    by (rule superpose_deltas_density[OF pos])
  let ?x = "fft2 (astype_complex (density (s0, s1) (masked positions ?sel)))"
  have shx: "shape ?x = (s0, s1)"
    using ks by (simp add: keeps_shape_def astype_complex_def)
  have mul: "multiply ?x k = Inr (species_term fft2 (s0, s1) positions numbers sf s)"
    by (simp add: multiply_def shx k species_term_def)
  have sht: "shape (species_term fft2 (s0, s1) positions numbers sf s) = (s0, s1)"
    by (simp add: species_term_def cell_mult_def shx)
  have add: "iadd array (species_term fft2 (s0, s1) positions numbers sf s)
               = Inr (cell_add array (species_term fft2 (s0, s1) positions numbers sf s))"
    by (simp add: iadd_def sht Cons.prems(1))
  have sh': "shape (cell_add array (species_term fft2 (s0, s1) positions numbers sf s)) = (s0, s1)"
    by (simp add: Cons.prems(1))
  have rest: "\<forall>s \<in> set rest. s \<in> set numbers \<and> (\<exists>k. map_of sf s = Some k \<and> shape k = (s0, s1))"
    using Cons.prems(2) by simp
  have step: "accumulate_species fft2 positions numbers sf (None :: 'si option) array (s # rest) =
     accumulate_species fft2 positions numbers sf (None :: 'si option)
       (cell_add array (species_term fft2 (s0, s1) positions numbers sf s)) rest"
    using any sup k(1) mul add
    by (simp add: Let_def Cons.prems(1) del: bex_simps set_map)
  show ?case
    unfolding step Cons.IH[OF sh' rest] by simp
qed

lemma additive_foldl:
  assumes "additive f" "keeps_shape f"
  shows "\<forall>t \<in> set ts. shape t = shape z \<Longrightarrow>
         f (foldl cell_add z ts) = foldl cell_add (f z) (map f ts)"
proof (induction ts arbitrary: z)
  case Nil
  then show ?case by simp
next
  case (Cons t ts)
  have st: "shape z = shape t" using Cons.prems by simp
  have "f (cell_add z t) = cell_add (f z) (f t)"
    using assms(1) st by (simp add: additive_def)
  moreover have "\<forall>u \<in> set ts. shape u = shape (cell_add z t)" using Cons.prems by simp
  ultimately show ?case using Cons.IH[of "cell_add z t"] by simp
qed

lemma real_part_cell_add: "real_part (cell_add a b) = cell_add (real_part a) (real_part b)"
  by (simp add: real_part_def cell_add_def)

lemma real_part_foldl:
  "real_part (foldl cell_add z ts) = foldl cell_add (real_part z) (map real_part ts)"
  by (induction ts arbitrary: z) (simp_all add: real_part_cell_add)

lemma additive_zeros:
  assumes "additive f" "keeps_shape f"
  shows "f (zeros_complex shp) = zeros_complex shp"
proof -
  let ?z = "zeros_complex shp"
  have zz: "cell_add ?z ?z = ?z" by (simp add: cell_add_def zeros_complex_def)
  from assms(1) have "f (cell_add ?z ?z) = cell_add (f ?z) (f ?z)" by (simp add: additive_def)
  then have e: "f ?z = cell_add (f ?z) (f ?z)" by (simp only: zz)
  have "cells (f ?z) p = 0" for p
  proof -
    from e have "cells (f ?z) p = cells (cell_add (f ?z) (f ?z)) p" by simp
    then show ?thesis by (simp add: cell_add_def)
  qed
  then have c: "cells (f ?z) = (\<lambda>_. 0)" by (intro ext)
  have s: "shape (f ?z) = shp" using assms(2) by (simp add: keeps_shape_def zeros_complex_def)
  show ?thesis
    using c s by (simp add: zeros_complex_def ndarray.equality)
qed

lemma real_part_zeros: "real_part (zeros_complex shp) = zeros shp"
  by (simp add: real_part_def zeros_complex_def zeros_def)

lemma masked_map: "masked (map f xs) sel = map f (masked xs sel)"
proof (induction xs arbitrary: sel)
  case Nil
  then show ?case by (simp add: masked_def)
next
  case (Cons x xs)
  show ?case
  proof (cases sel)
    case Nil
    then show ?thesis by (simp add: masked_def)
  next
    case (Cons b bs)
    with Cons.IH[of bs] show ?thesis by (simp add: masked_def)
  qed
qed

lemma masked_same: "masked xs (map P xs) = filter P xs"
  by (induction xs) (simp_all add: masked_def)

lemma length_masked:
  "length xs = length ys \<Longrightarrow> length (masked xs (map P ys)) = length (filter P ys)"
  by (induction xs ys rule: list_induct2) (simp_all add: masked_def)

lemma select_atoms_fields:
  "at_positions (select_atoms a sel) = masked (at_positions a) sel"
  "at_numbers (select_atoms a sel) = masked (at_numbers a) sel"
  by (simp_all add: select_atoms_def masked_def)

lemma scaled_positions_select:
  "scaled_positions (select_atoms a sel) sampling = masked (scaled_positions a sampling) sel"
  by (simp add: scaled_positions_def select_atoms_fields masked_map)

lemma remdups_constant:
  "xs \<noteq> [] \<Longrightarrow> \<forall>x \<in> set xs. x = s \<Longrightarrow> remdups xs = [s]"
proof (induction xs)
  case Nil
  then show ?case by simp
next
  case (Cons x xs)
  show ?case
  proof (cases "xs = []")
    case True
    with Cons.prems show ?thesis by simp
  next
    case False
    with Cons have "remdups xs = [s]" by simp
    moreover from False Cons.prems have "x \<in> set xs" by (cases xs) auto
    ultimately show ?thesis by simp
  qed
qed

lemma unique_species:
  assumes "s \<in> set numbers"
  shows "unique (filter (\<lambda>n. n = s) numbers) = [s]"
proof -
  have "filter (\<lambda>n. n = s) numbers \<noteq> []" using assms by (simp add: filter_empty_conv)
  moreover have "\<forall>x \<in> set (filter (\<lambda>n. n = s) numbers). x = s" by simp
  ultimately have "remdups (filter (\<lambda>n. n = s) numbers) = [s]" by (rule remdups_constant)
  then show ?thesis by (simp add: unique_def)
qed

lemma set_unique: "set (unique xs) = set xs"
  by (simp add: unique_def)

text \<open>the single-species branch, on the atoms of one species\<close>
lemma single_species_projection:
  assumes ks: "keeps_shape fft2" and pos: "0 < s0" "0 < s1"
      and len: "length (at_positions a) = length (at_numbers a)"
      and mem: "s \<in> set (at_numbers a)"
      and k: "map_of sf s = Some k" "shape k = (s0, s1)"
  shows "infinite_potential_projections fft2 ifft2
           (select_atoms a (map (\<lambda>m. m = s) (at_numbers a))) (n, s0, s1) sampling sf (None :: 'si option)
         = Inr [real_part (ifft2 (species_term fft2 (s0, s1) (scaled_positions a sampling)
                                     (at_numbers a) sf s))]"
proof -
  let ?sel = "map (\<lambda>m. m = s) (at_numbers a)"
  let ?sub = "select_atoms a ?sel"
  have sfne: "sf \<noteq> []" using k(1) by auto
  have nums: "at_numbers ?sub = filter (\<lambda>m. m = s) (at_numbers a)"
    by (simp add: select_atoms_fields masked_same)
  have "length (at_positions ?sub) = length (filter (\<lambda>m. m = s) (at_numbers a))"
    by (simp add: select_atoms_fields length_masked[OF len])
  moreover have "filter (\<lambda>m. m = s) (at_numbers a) \<noteq> []"
    using mem by (simp add: filter_empty_conv)
  ultimately have nonempty: "length (at_positions ?sub) \<noteq> 0" by simp
  have uq: "unique (at_numbers ?sub) = [s]" by (simp only: nums unique_species[OF mem])
  have ps: "scaled_positions ?sub sampling = masked (scaled_positions a sampling) ?sel"
    by (rule scaled_positions_select)
  have sup: "superpose_deltas (masked (scaled_positions a sampling) ?sel) (zeros (s0, s1))
               (None :: 'si option) None
             = Inr (density (s0, s1) (masked (scaled_positions a sampling) ?sel))"
    by (rule superpose_deltas_density[OF pos])
  let ?x = "fft2 (astype_complex (density (s0, s1) (masked (scaled_positions a sampling) ?sel)))"
  have shx: "shape ?x = (s0, s1)"
    using ks by (simp add: keeps_shape_def astype_complex_def)
  have conv: "fft2_convolve fft2 ifft2
                (astype_complex (density (s0, s1) (masked (scaled_positions a sampling) ?sel))) k
              = Inr (ifft2 (species_term fft2 (s0, s1) (scaled_positions a sampling) (at_numbers a) sf s))"
    by (simp add: fft2_convolve_def multiply_def shx k species_term_def)
  show ?thesis
    unfolding infinite_potential_projections_def Let_def
    using sfne nonempty
    by (simp only: if_False uq ps) (simp add: sup k(1) conv)
qed

lemma shape_species_term:
  "keeps_shape fft2 \<Longrightarrow> shape (species_term fft2 shp positions numbers sf s) = shp"
  by (simp add: species_term_def cell_mult_def keeps_shape_def astype_complex_def)

lemma multi_species_branch:
  assumes ks: "keeps_shape fft2" and pos: "0 < s0" "0 < s1"
      and len: "length (at_positions a) = length (at_numbers a)"
      and many: "1 < length (unique (at_numbers a))"
      and sf: "\<forall>s \<in> set (at_numbers a). \<exists>k. map_of sf s = Some k \<and> shape k = (s0, s1)"
  shows "infinite_potential_projections fft2 ifft2 a (n, s0, s1) sampling sf (None :: 'si option)
     = Inr [real_part (ifft2 (foldl cell_add (zeros_complex (s0, s1))
             (map (species_term fft2 (s0, s1) (scaled_positions a sampling) (at_numbers a) sf)
                  (unique (at_numbers a)))))]"
proof -
  from many have "unique (at_numbers a) \<noteq> []" by auto
  then have ne: "at_numbers a \<noteq> []" by (auto simp: unique_def)
  with len have nonempty: "length (at_positions a) \<noteq> 0" by simp
  from ne obtain s where "s \<in> set (at_numbers a)" by (cases "at_numbers a") auto
  with sf obtain k where "map_of sf s = Some k" by blast
  then have sfne: "sf \<noteq> []" by auto
  have all: "\<forall>s \<in> set (unique (at_numbers a)).
      s \<in> set (at_numbers a) \<and> (\<exists>k. map_of sf s = Some k \<and> shape k = (s0, s1))"
    using sf by (simp add: set_unique)
  have shz: "shape (zeros_complex (s0, s1)) = (s0, s1)" by (simp add: zeros_complex_def)
  note acc = accumulate_species_sum[OF ks pos shz all, of "scaled_positions a sampling", where 'si = 'si]
  show ?thesis
    unfolding infinite_potential_projections_def Let_def
    using sfne nonempty many
    by (simp only: if_False if_True snd_conv acc) simp
qed

lemma sum_of_species:
  assumes ks: "keeps_shape fft2" and ki: "keeps_shape ifft2" and ad: "additive ifft2"
  shows "real_part (ifft2 (foldl cell_add (zeros_complex shp)
             (map (species_term fft2 shp positions numbers sf) species)))
         = array_sum shp (map (\<lambda>s. real_part (ifft2 (species_term fft2 shp positions numbers sf s)))
                            species)"
proof -
  let ?ts = "map (species_term fft2 shp positions numbers sf) species"
  have sh: "\<forall>t \<in> set ?ts. shape t = shape (zeros_complex shp)"
    using shape_species_term[OF ks] by (auto simp: zeros_complex_def)
  have "ifft2 (foldl cell_add (zeros_complex shp) ?ts)
          = foldl cell_add (ifft2 (zeros_complex shp)) (map ifft2 ?ts)"
    by (rule additive_foldl[OF ad ki sh])
  also have "ifft2 (zeros_complex shp) = zeros_complex shp"
    by (rule additive_zeros[OF ad ki])
  finally have "real_part (ifft2 (foldl cell_add (zeros_complex shp) ?ts))
          = foldl cell_add (real_part (zeros_complex shp)) (map real_part (map ifft2 ?ts))"
    by (simp only: real_part_foldl)
  then show ?thesis
    by (simp add: real_part_zeros array_sum_def comp_def)
qed

text \<open>
  Claim C3 (multi-species projection equivalence). Let the two transforms keep the shape
  of an array and let the inverse transform be additive (the discrete Fourier transform
  and its inverse are such a pair), on a grid with at least one cell, for atoms of more
  than one atomic number, each with a scattering factor of the shape of the grid. Then
  \<open>infinite_potential_projections\<close> returns one array: the real part of a single inverse
  transform of the accumulator, which is the sum over the species, in increasing atomic
  number, of the transform of that species' density map times its scattering factor.
  Applied to the atoms of one species alone, it returns the real part of the inverse
  transform of that species' term (the single-species path). And the first array is the
  sum of the others. Arithmetic is exact.
\<close>

theorem multi_species_projection_equivalence:
  "keeps_shape fft2 \<and> keeps_shape ifft2 \<and> additive ifft2 \<and> 0 < s0 \<and> 0 < s1 \<and>
   length (at_positions a) = length (at_numbers a) \<and>
   1 < length (unique (at_numbers a)) \<and>
   (\<forall>s \<in> set (at_numbers a). \<exists>k. map_of sf s = Some k \<and> shape k = (s0, s1))
   \<longrightarrow>
   infinite_potential_projections fft2 ifft2 a (n, s0, s1) sampling sf (None :: 'si option)
     = Inr [real_part (ifft2 (foldl cell_add (zeros_complex (s0, s1))
             (map (species_term fft2 (s0, s1) (scaled_positions a sampling) (at_numbers a) sf)
                  (unique (at_numbers a)))))] \<and>
   (\<forall>s \<in> set (unique (at_numbers a)).
      infinite_potential_projections fft2 ifft2
        (select_atoms a (map (\<lambda>m. m = s) (at_numbers a))) (n, s0, s1) sampling sf (None :: 'si option)
      = Inr [real_part (ifft2 (species_term fft2 (s0, s1) (scaled_positions a sampling)
                                  (at_numbers a) sf s))]) \<and>
   real_part (ifft2 (foldl cell_add (zeros_complex (s0, s1))
             (map (species_term fft2 (s0, s1) (scaled_positions a sampling) (at_numbers a) sf)
                  (unique (at_numbers a)))))
     = array_sum (s0, s1)
         (map (\<lambda>s. real_part (ifft2 (species_term fft2 (s0, s1) (scaled_positions a sampling)
                                        (at_numbers a) sf s)))
              (unique (at_numbers a)))"
proof (intro impI)
  assume h: "keeps_shape fft2 \<and> keeps_shape ifft2 \<and> additive ifft2 \<and> 0 < s0 \<and> 0 < s1 \<and>
   length (at_positions a) = length (at_numbers a) \<and>
   1 < length (unique (at_numbers a)) \<and>
   (\<forall>s \<in> set (at_numbers a). \<exists>k. map_of sf s = Some k \<and> shape k = (s0, s1))"
  then have ks: "keeps_shape fft2" and ki: "keeps_shape ifft2" and ad: "additive ifft2"
    and pos: "0 < s0" "0 < s1" and len: "length (at_positions a) = length (at_numbers a)"
    and many: "1 < length (unique (at_numbers a))"
    and sf: "\<forall>s \<in> set (at_numbers a). \<exists>k. map_of sf s = Some k \<and> shape k = (s0, s1)"
    by blast+
  have multi: "infinite_potential_projections fft2 ifft2 a (n, s0, s1) sampling sf (None :: 'si option)
     = Inr [real_part (ifft2 (foldl cell_add (zeros_complex (s0, s1))
             (map (species_term fft2 (s0, s1) (scaled_positions a sampling) (at_numbers a) sf)
                  (unique (at_numbers a)))))]"
    by (rule multi_species_branch[OF ks pos len many sf])
  have single: "\<forall>s \<in> set (unique (at_numbers a)).
      infinite_potential_projections fft2 ifft2
        (select_atoms a (map (\<lambda>m. m = s) (at_numbers a))) (n, s0, s1) sampling sf (None :: 'si option)
      = Inr [real_part (ifft2 (species_term fft2 (s0, s1) (scaled_positions a sampling)
                                  (at_numbers a) sf s))]"
  proof
    fix s assume "s \<in> set (unique (at_numbers a))"
    then have mem: "s \<in> set (at_numbers a)" by (simp add: set_unique)
    with sf obtain k where k: "map_of sf s = Some k" "shape k = (s0, s1)" by blast
    show "infinite_potential_projections fft2 ifft2
        (select_atoms a (map (\<lambda>m. m = s) (at_numbers a))) (n, s0, s1) sampling sf (None :: 'si option)
      = Inr [real_part (ifft2 (species_term fft2 (s0, s1) (scaled_positions a sampling)
                                  (at_numbers a) sf s))]"
      by (rule single_species_projection[OF ks pos len mem k])
  qed
  note eq = sum_of_species[OF ks ki ad, of "(s0, s1)" "scaled_positions a sampling" "at_numbers a" sf
      "unique (at_numbers a)"]
  from multi single eq show "infinite_potential_projections fft2 ifft2 a (n, s0, s1) sampling sf (None :: 'si option)
     = Inr [real_part (ifft2 (foldl cell_add (zeros_complex (s0, s1))
             (map (species_term fft2 (s0, s1) (scaled_positions a sampling) (at_numbers a) sf)
                  (unique (at_numbers a)))))] \<and>
   (\<forall>s \<in> set (unique (at_numbers a)).
      infinite_potential_projections fft2 ifft2
        (select_atoms a (map (\<lambda>m. m = s) (at_numbers a))) (n, s0, s1) sampling sf (None :: 'si option)
      = Inr [real_part (ifft2 (species_term fft2 (s0, s1) (scaled_positions a sampling)
                                  (at_numbers a) sf s))]) \<and>
   real_part (ifft2 (foldl cell_add (zeros_complex (s0, s1))
             (map (species_term fft2 (s0, s1) (scaled_positions a sampling) (at_numbers a) sf)
                  (unique (at_numbers a)))))
     = array_sum (s0, s1)
         (map (\<lambda>s. real_part (ifft2 (species_term fft2 (s0, s1) (scaled_positions a sampling)
                                        (at_numbers a) sf s)))
              (unique (at_numbers a)))"
    by (intro conjI)
qed

lemma keeps_shape_dft2: "keeps_shape dft2"
  by (simp add: keeps_shape_def dft2_def)

lemma keeps_shape_idft2: "keeps_shape idft2"
  by (simp add: keeps_shape_def idft2_def)

lemma additive_idft2: "additive idft2"
  unfolding additive_def
proof (intro allI impI)
  fix x y :: "complex ndarray"
  assume sh: "shape x = shape y"
  have "cells (idft2 (cell_add x y)) k = cells (cell_add (idft2 x) (idft2 y)) k" for k
    by (simp add: idft2_def cell_add_def sh sum.distrib distrib_right add_divide_distrib)
  then have "cells (idft2 (cell_add x y)) = cells (cell_add (idft2 x) (idft2 y))" by (intro ext)
  moreover have "shape (idft2 (cell_add x y)) = shape (cell_add (idft2 x) (idft2 y))"
    by (simp add: idft2_def cell_add_def)
  ultimately show "idft2 (cell_add x y) = cell_add (idft2 x) (idft2 y)"
    by (simp add: ndarray.equality)
qed

lemma unique_carbon_silicon: "unique (at_numbers carbon_silicon) = [6, 14]"
  by (simp add: unique_def carbon_silicon_def)

theorem multi_species_projection_equivalence_witness:
  "keeps_shape dft2 \<and> keeps_shape idft2 \<and> additive idft2 \<and> (0::nat) < 2 \<and>
   length (at_positions carbon_silicon) = length (at_numbers carbon_silicon) \<and>
   unique (at_numbers carbon_silicon) = [6, 14] \<and>
   1 < length (unique (at_numbers carbon_silicon)) \<and>
   map_of flat_factors 6 = Some \<lparr>shape = (2, 2), cells = (\<lambda>_. 1)\<rparr> \<and>
   map_of flat_factors 14 = Some \<lparr>shape = (2, 2), cells = (\<lambda>_. 2)\<rparr> \<and>
   infinite_potential_projections dft2 idft2 carbon_silicon (1, 2, 2) (1, 1) flat_factors (None :: unit option)
     = Inr [array_sum (2, 2)
         [real_part (idft2 (species_term dft2 (2, 2) (scaled_positions carbon_silicon (1, 1))
                              (at_numbers carbon_silicon) flat_factors 6)),
          real_part (idft2 (species_term dft2 (2, 2) (scaled_positions carbon_silicon (1, 1))
                              (at_numbers carbon_silicon) flat_factors 14))]] \<and>
   infinite_potential_projections dft2 idft2
     (select_atoms carbon_silicon (map (\<lambda>m. m = 6) (at_numbers carbon_silicon))) (1, 2, 2) (1, 1)
     flat_factors (None :: unit option)
     = Inr [real_part (idft2 (species_term dft2 (2, 2) (scaled_positions carbon_silicon (1, 1))
                              (at_numbers carbon_silicon) flat_factors 6))] \<and>
   infinite_potential_projections dft2 idft2
     (select_atoms carbon_silicon (map (\<lambda>m. m = 14) (at_numbers carbon_silicon))) (1, 2, 2) (1, 1)
     flat_factors (None :: unit option)
     = Inr [real_part (idft2 (species_term dft2 (2, 2) (scaled_positions carbon_silicon (1, 1))
                              (at_numbers carbon_silicon) flat_factors 14))]"
proof -
  have len: "length (at_positions carbon_silicon) = length (at_numbers carbon_silicon)"
    by (simp add: carbon_silicon_def)
  have f6: "map_of flat_factors 6 = Some \<lparr>shape = (2, 2), cells = (\<lambda>_. 1)\<rparr>"
    and f14: "map_of flat_factors 14 = Some \<lparr>shape = (2, 2), cells = (\<lambda>_. 2)\<rparr>"
    by (simp_all add: flat_factors_def)
  have sf: "\<forall>s \<in> set (at_numbers carbon_silicon).
              \<exists>k. map_of flat_factors s = Some k \<and> shape k = (2, 2)"
    by (simp add: carbon_silicon_def flat_factors_def)
  have many: "1 < length (unique (at_numbers carbon_silicon))"
    by (simp add: unique_carbon_silicon)
  note t = multi_species_projection_equivalence[of dft2 idft2 2 2 carbon_silicon flat_factors 1
      "(1, 1)", where 'si = unit]
  from t keeps_shape_dft2 keeps_shape_idft2 additive_idft2 len many sf
  have r: "infinite_potential_projections dft2 idft2 carbon_silicon (1, 2, 2) (1, 1) flat_factors (None :: unit option)
     = Inr [real_part (idft2 (foldl cell_add (zeros_complex (2, 2))
             (map (species_term dft2 (2, 2) (scaled_positions carbon_silicon (1, 1)) (at_numbers carbon_silicon) flat_factors)
                  (unique (at_numbers carbon_silicon)))))]"
    and s: "\<forall>s \<in> set (unique (at_numbers carbon_silicon)).
      infinite_potential_projections dft2 idft2
        (select_atoms carbon_silicon (map (\<lambda>m. m = s) (at_numbers carbon_silicon))) (1, 2, 2) (1, 1) flat_factors (None :: unit option)
      = Inr [real_part (idft2 (species_term dft2 (2, 2) (scaled_positions carbon_silicon (1, 1))
                                  (at_numbers carbon_silicon) flat_factors s))]"
    and e: "real_part (idft2 (foldl cell_add (zeros_complex (2, 2))
             (map (species_term dft2 (2, 2) (scaled_positions carbon_silicon (1, 1)) (at_numbers carbon_silicon) flat_factors)
                  (unique (at_numbers carbon_silicon)))))
     = array_sum (2, 2)
         (map (\<lambda>s. real_part (idft2 (species_term dft2 (2, 2) (scaled_positions carbon_silicon (1, 1))
                                        (at_numbers carbon_silicon) flat_factors s)))
              (unique (at_numbers carbon_silicon)))"
    by simp_all
  from s have s6: "infinite_potential_projections dft2 idft2
     (select_atoms carbon_silicon (map (\<lambda>m. m = 6) (at_numbers carbon_silicon))) (1, 2, 2) (1, 1)
     flat_factors (None :: unit option)
     = Inr [real_part (idft2 (species_term dft2 (2, 2) (scaled_positions carbon_silicon (1, 1))
                              (at_numbers carbon_silicon) flat_factors 6))]"
    and s14: "infinite_potential_projections dft2 idft2
     (select_atoms carbon_silicon (map (\<lambda>m. m = 14) (at_numbers carbon_silicon))) (1, 2, 2) (1, 1)
     flat_factors (None :: unit option)
     = Inr [real_part (idft2 (species_term dft2 (2, 2) (scaled_positions carbon_silicon (1, 1))
                              (at_numbers carbon_silicon) flat_factors 14))]"
    by (simp_all add: unique_carbon_silicon)
  from r e have r': "infinite_potential_projections dft2 idft2 carbon_silicon (1, 2, 2) (1, 1) flat_factors (None :: unit option)
     = Inr [array_sum (2, 2)
         [real_part (idft2 (species_term dft2 (2, 2) (scaled_positions carbon_silicon (1, 1))
                              (at_numbers carbon_silicon) flat_factors 6)),
          real_part (idft2 (species_term dft2 (2, 2) (scaled_positions carbon_silicon (1, 1))
                              (at_numbers carbon_silicon) flat_factors 14))]]"
    by (simp add: unique_carbon_silicon)
  show ?thesis
    using keeps_shape_dft2 keeps_shape_idft2 additive_idft2 len unique_carbon_silicon many f6 f14 r' s6 s14
    by (intro conjI) simp_all
qed

end
